theory Spec2Isabelle
  imports Main "HOL-Library.Multiset" "HOL-Library.AList"
begin

section \<open>Python values, records and errors\<close>

text \<open>
  Python 2 values: \<^verbatim>\<open>None\<close>, booleans, integers, unicode strings (\<open>PUnicode\<close>) and
  byte strings (\<open>PStr\<close>, the type \<^verbatim>\<open>str\<close>).
\<close>

datatype pyval = PNone | PBool bool | PInt int | PUnicode string | PStr string

definition digit_char :: "nat \<Rightarrow> char" where
  "digit_char d = char_of (48 + d)"

fun dec_nat :: "nat \<Rightarrow> string" where
  "dec_nat n = (if n < 10 then [digit_char n] else dec_nat (n div 10) @ [digit_char (n mod 10)])"

declare dec_nat.simps [simp del]

definition dec_int :: "int \<Rightarrow> string" where
  "dec_int i = (if i < 0 then CHR ''-'' # dec_nat (nat (- i)) else dec_nat (nat i))"

text \<open>
  The exceptions the module can raise, as values. \<^verbatim>\<open>AttributeError\<close> carries its message;
  \<^verbatim>\<open>KeyError\<close> carries the missing key; \<^verbatim>\<open>UnknownFieldError\<close> is the index engine's
  error for a document field that the index schema does not have, \<^verbatim>\<open>EmptyIndexError\<close>
  its error for a directory that holds no index.
\<close>

datatype error =
    AttributeError string
  | KeyError string
  | TypeError
  | IndexError
  | UnicodeDecodeError
  | UnknownFieldError
  | EmptyIndexError string

text \<open>
  The builtin \<^verbatim>\<open>unicode(x)\<close>. A byte string is decoded with the default codec, ASCII,
  which raises \<^verbatim>\<open>UnicodeDecodeError\<close> at a byte above 127.
\<close>

fun unicode :: "pyval \<Rightarrow> error + string" where
  "unicode PNone = Inr ''None''"
| "unicode (PBool b) = Inr (if b then ''True'' else ''False'')"
| "unicode (PInt i) = Inr (dec_int i)"
| "unicode (PUnicode s) = Inr s"
| "unicode (PStr s) =
     (if list_all (\<lambda>c. (of_char c :: nat) < 128) s then Inr s else Inl UnicodeDecodeError)"

text \<open>\<^verbatim>\<open>isinstance(x, unicode)\<close>.\<close>

fun is_unicode :: "pyval \<Rightarrow> bool" where
  "is_unicode (PUnicode s) = True"
| "is_unicode v = False"

text \<open>
  Column types of the relational layer, with the subclass relation that
  \<^verbatim>\<open>isinstance(field.type, (Text, String, Unicode))\<close> tests: \<^verbatim>\<open>Text\<close>, \<^verbatim>\<open>Unicode\<close> and
  \<^verbatim>\<open>UnicodeText\<close> are subclasses of \<^verbatim>\<open>String\<close>; the others are not.
\<close>

datatype coltype =
    String | Text | Unicode | UnicodeText
  | Integer | Float | Boolean | DateTime | LargeBinary

fun is_textual :: "coltype \<Rightarrow> bool" where
  "is_textual String = True"
| "is_textual Text = True"
| "is_textual Unicode = True"
| "is_textual UnicodeText = True"
| "is_textual t = False"

record column =
  name :: string
  primary_key :: bool
  type :: coltype

text \<open>
  A mapped class: its \<^verbatim>\<open>__name__\<close>, its \<^verbatim>\<open>__searchable__\<close> attribute (\<open>None\<close> when the
  class does not declare one) and \<^verbatim>\<open>__table__.columns\<close>.
\<close>

record pyclass =
  cname :: string
  searchable :: "string list option"
  columns :: "column list"

text \<open>
  A record instance: its class, its attributes, and its object identity, by which
  Python 2 orders two instances of a class that defines no comparison.
\<close>

record row =
  cls :: pyclass
  obj_attrs :: "string \<rightharpoonup> pyval"
  ident :: nat

text \<open>\<^verbatim>\<open>getattr(obj, name)\<close>; the attribute name \<^verbatim>\<open>None\<close> is a \<^verbatim>\<open>TypeError\<close>.\<close>

definition getattr :: "row \<Rightarrow> string option \<Rightarrow> error + pyval" where
  "getattr r k =
     (case k of
        None \<Rightarrow> Inl TypeError
      | Some a \<Rightarrow> (case obj_attrs r a of
                     None \<Rightarrow> Inl (AttributeError a)
                   | Some v \<Rightarrow> Inr v))"

section \<open>The index engine's data\<close>

text \<open>
  The two field types the module builds: \<^verbatim>\<open>whoosh.fields.ID(stored=..., unique=...)\<close> and
  \<^verbatim>\<open>whoosh.fields.TEXT(analyzer=...)\<close>, which by default is neither stored nor unique.
\<close>

datatype analyzer = StemmingAnalyzer

datatype fieldtype = ID bool bool | TEXT analyzer

fun stored :: "fieldtype \<Rightarrow> bool" where
  "stored (ID st un) = st"
| "stored (TEXT an) = False"

fun unique :: "fieldtype \<Rightarrow> bool" where
  "unique (ID st un) = un"
| "unique (TEXT an) = False"

type_synonym schema = "string \<rightharpoonup> fieldtype"

text \<open>
  A document is the keyword dictionary given to the writer, in the order in which its
  keys were first assigned. An index on disk is a schema and its committed documents; an
  index object (the handle that \<^verbatim>\<open>open_dir\<close> and \<^verbatim>\<open>create_in\<close> return) is the
  directory together with the schema read or written there.
\<close>

type_synonym doc = "(string \<times> string) list"

record stored_index =
  st_schema :: schema
  st_docs :: "doc list"

record index =
  idx_dir :: string
  idx_schema :: schema

section \<open>The relational query\<close>

text \<open>
  A filter criterion of a query: an opaque predicate that the query already carried,
  the literal SQL text \<^verbatim>\<open>null\<close> (from \<^verbatim>\<open>filter('null')\<close>), or
  \<^verbatim>\<open>column.in_(keys)\<close>.
\<close>

datatype criterion =
    Where "row \<Rightarrow> bool"
  | TextNull
  | In_set "string option" "string set"

text \<open>
  \<^verbatim>\<open>_Searcher\<close>: the primary key name, the index it searches and the fields it
  searches by default (built from a set, so in no particular order).
\<close>

record searcher =
  s_primary_key_name :: "string option"
  s_index :: index
  all_fields :: "string set"

text \<open>
  The query object. The first field is the state of the relational query; the others
  are those \<^verbatim>\<open>_QueryProxy.__init__\<close> adds (\<open>proxy = None\<close> for a plain query).
\<close>

record proxy_fields =
  primary_key_name :: "string option"
  whoosh_searcher :: searcher
  model :: row
  whoosh_rank :: "(string \<rightharpoonup> nat) option"

record query =
  criteria :: "criterion list"
  proxy :: "proxy_fields option"

text \<open>
  Evaluation of a criterion on a row. \<^verbatim>\<open>WHERE null\<close> is true of no row. A primary key
  is compared with the identifier strings of the hits by its string form (a key that has
  none is in no set).
\<close>

fun holds :: "criterion \<Rightarrow> row \<Rightarrow> bool" where
  "holds (Where p) r = p r"
| "holds TextNull r = False"
| "holds (In_set c ks) r =
     (case getattr r c of
        Inl e \<Rightarrow> False
      | Inr v \<Rightarrow> (case unicode v of Inl e \<Rightarrow> False | Inr k \<Rightarrow> k \<in> ks))"

text \<open>
  \<^verbatim>\<open>Query.__iter__\<close> of the relational layer: the rows of the table, in storage order,
  that satisfy every criterion.
\<close>

definition Query_iter :: "row list \<Rightarrow> query \<Rightarrow> row list" where
  "Query_iter db q = filter (\<lambda>r. list_all (\<lambda>c. holds c r) (criteria q)) db"

text \<open>\<^verbatim>\<open>Query.filter(c)\<close>: a copy of the query with one more criterion.\<close>

definition filter_query :: "query \<Rightarrow> criterion \<Rightarrow> query" where
  "filter_query q c = q\<lparr>criteria := criteria q @ [c]\<rparr>"

section \<open>The heap of the standard library\<close>

text \<open>
  \<^verbatim>\<open>heapq\<close> is modelled by its contract: the heap is a bag of items, \<^verbatim>\<open>heappop\<close> removes
  and returns the smallest one. The items are \<^verbatim>\<open>(rank, row)\<close> tuples, compared first by
  rank, then by row; rows compare by object identity.
\<close>

definition tuple_lt :: "nat \<times> row \<Rightarrow> nat \<times> row \<Rightarrow> bool" where
  "tuple_lt a b = (fst a < fst b \<or> (fst a = fst b \<and> ident (snd a) < ident (snd b)))"

definition heappush :: "(nat \<times> row) list \<Rightarrow> nat \<times> row \<Rightarrow> (nat \<times> row) list" where
  "heappush h x = h @ [x]"

fun heappop :: "(nat \<times> row) list \<Rightarrow> ((nat \<times> row) \<times> (nat \<times> row) list) option" where
  "heappop [] = None"
| "heappop (x # xs) =
     (case heappop xs of
        None \<Rightarrow> Some (x, [])
      | Some (m, rest) \<Rightarrow> if tuple_lt m x then Some (m, x # rest) else Some (x, xs))"

section \<open>\<^verbatim>\<open>_QueryProxy.__iter__\<close>\<close>

text \<open>
  The \<^verbatim>\<open>for row in super_iter\<close> loop: each row is pushed with the rank that the rank map
  gives to the string form of its primary key. A missing attribute, a key that
  \<^verbatim>\<open>unicode\<close> cannot decode and a key missing from the rank map raise.
\<close>

fun push_rows ::
  "(string \<rightharpoonup> nat) \<Rightarrow> string option \<Rightarrow> (nat \<times> row) list \<Rightarrow> row list
     \<Rightarrow> error + (nat \<times> row) list" where
  "push_rows rk pk h [] = Inr h"
| "push_rows rk pk h (r # rs) =
     (case getattr r pk of
        Inl e \<Rightarrow> Inl e
      | Inr v \<Rightarrow>
          (case unicode v of
             Inl e \<Rightarrow> Inl e
           | Inr k \<Rightarrow> (case rk k of
                         None \<Rightarrow> Inl (KeyError k)
                       | Some n \<Rightarrow> push_rows rk pk (heappush h (n, r)) rs)))"

text \<open>The generator \<^verbatim>\<open>_inner\<close>: pop until the heap is empty.\<close>

function inner :: "(nat \<times> row) list \<Rightarrow> row list" where
  "inner h = (case heappop h of None \<Rightarrow> [] | Some (m, rest) \<Rightarrow> snd m # inner rest)"
  by pat_completeness auto
termination
proof (relation "measure length")
  show "wf (measure length)" by simp
next
  fix h :: "(nat \<times> row) list" and a m rest
  assume "heappop h = Some a" and "(m, rest) = a"
  then have "heappop h = Some (m, rest)" by simp
  then have "length rest < length h"
    by (induction h arbitrary: m rest) (auto split: option.splits if_splits)
  then show "(rest, h) \<in> measure length" by simp
qed

declare inner.simps [simp del]

text \<open>
  \<^verbatim>\<open>_QueryProxy.__iter__\<close> on the table \<open>db\<close>. A plain query, and a proxy whose
  \<^verbatim>\<open>_whoosh_rank\<close> is \<^verbatim>\<open>None\<close>, return the relational iterator.
\<close>

definition QueryProxy_iter :: "row list \<Rightarrow> query \<Rightarrow> error + row list" where
  "QueryProxy_iter db q =
     (let super_iter = Query_iter db q in
      case proxy q of
        None \<Rightarrow> Inr super_iter
      | Some p \<Rightarrow>
          (case whoosh_rank p of
             None \<Rightarrow> Inr super_iter
           | Some rk \<Rightarrow>
               (case push_rows rk (primary_key_name p) [] super_iter of
                  Inl e \<Rightarrow> Inl e
                | Inr ordered_by_whoosh_rank \<Rightarrow> Inr (inner ordered_by_whoosh_rank))))"

section \<open>\<^verbatim>\<open>_Searcher.__call__\<close>, \<^verbatim>\<open>_EmptyQuery\<close> and \<^verbatim>\<open>_QueryProxy.whoosh_search\<close>\<close>

text \<open>
  A hit of the index engine: the stored fields of the matching document.
  \<^verbatim>\<open>result[key]\<close> raises \<^verbatim>\<open>KeyError\<close> for a field that is not stored.
\<close>

type_synonym hit = "string \<rightharpoonup> string"

definition hit_get :: "hit \<Rightarrow> string option \<Rightarrow> error + string" where
  "hit_get result k =
     (case k of
        None \<Rightarrow> Inl (KeyError ''None'')
      | Some a \<Rightarrow> (case result a of
                     None \<Rightarrow> Inl (KeyError a)
                   | Some v \<Rightarrow> Inr v))"

datatype group = OrGroup | AndGroup

text \<open>
  The index engine is a black box: given an index, the fields to search,
  the term grouping, the query object and the limit, it returns the hits in score order
  (\<^verbatim>\<open>MultifieldParser(...).parse\<close> followed by \<^verbatim>\<open>searcher().search\<close>).
\<close>

type_synonym engine = "index \<Rightarrow> string set \<Rightarrow> group \<Rightarrow> pyval \<Rightarrow> nat option \<Rightarrow> hit list"

definition Searcher_call ::
  "engine \<Rightarrow> searcher \<Rightarrow> pyval \<Rightarrow> nat option \<Rightarrow> string list option \<Rightarrow> bool \<Rightarrow> hit list" where
  "Searcher_call eng s query limit flds or_op =
     (let flds = (case flds of None \<Rightarrow> all_fields s | Some fs \<Rightarrow> set fs);
          group = (if or_op then OrGroup else AndGroup)
      in eng (s_index s) flds group query limit)"

text \<open>
  \<^verbatim>\<open>_EmptyQuery(model)\<close>: \<^verbatim>\<open>model.__class__.query.filter('null')\<close>. The argument
  \<open>cq\<close> gives the \<^verbatim>\<open>query\<close> attribute of each class, by class name.
\<close>

definition EmptyQuery :: "(string \<Rightarrow> query) \<Rightarrow> row \<Rightarrow> query" where
  "EmptyQuery cq m = filter_query (cq (cname (cls m))) TextNull"

text \<open>
  The \<^verbatim>\<open>for rank, result in enumerate(results)\<close> loop, from rank \<open>rank\<close> on, with the
  set and the dictionary built so far.
\<close>

fun collect_results ::
  "string option \<Rightarrow> nat \<Rightarrow> hit list \<Rightarrow> string set \<Rightarrow> (string \<rightharpoonup> nat)
     \<Rightarrow> error + (string set \<times> (string \<rightharpoonup> nat))" where
  "collect_results pkn rank [] result_set result_ranks = Inr (result_set, result_ranks)"
| "collect_results pkn rank (result # results) result_set result_ranks =
     (case hit_get result pkn of
        Inl e \<Rightarrow> Inl e
      | Inr pk \<Rightarrow> collect_results pkn (Suc rank) results
                   (insert pk result_set) (result_ranks(pk \<mapsto> rank)))"

text \<open>
  \<^verbatim>\<open>whoosh_search\<close> is a method of the proxy: a plain query has no such attribute.
  A query that is not a unicode object is replaced by \<^verbatim>\<open>unicode(query)\<close>, which can
  raise; the Searcher is called with the resulting object.
\<close>

definition whoosh_search ::
  "engine \<Rightarrow> (string \<Rightarrow> query) \<Rightarrow> query \<Rightarrow> pyval \<Rightarrow> nat option \<Rightarrow> string list option \<Rightarrow> bool
     \<Rightarrow> error + query" where
  "whoosh_search eng cq self query limit flds or_op =
     (case proxy self of
        None \<Rightarrow> Inl (AttributeError ''whoosh_search'')
      | Some p \<Rightarrow>
          (case (if \<not> is_unicode query
                 then (case unicode query of Inl e \<Rightarrow> Inl e | Inr s \<Rightarrow> Inr (PUnicode s))
                 else Inr query) of
             Inl e \<Rightarrow> Inl e
           | Inr query \<Rightarrow>
               (let results = Searcher_call eng (whoosh_searcher p) query limit flds or_op
                in if length results = 0 then Inr (EmptyQuery cq (model p))
                   else (case collect_results (primary_key_name p) 0 results {} Map.empty of
                           Inl e \<Rightarrow> Inl e
                         | Inr (result_set, result_ranks) \<Rightarrow>
                             (let f = filter_query self (In_set (primary_key_name p) result_set)
                              in Inr (f\<lparr>proxy := Some (p\<lparr>whoosh_rank := Some result_ranks\<rparr>)\<rparr>))))))"

section \<open>\<^verbatim>\<open>_get_whoosh_schema_and_primary\<close>\<close>

text \<open>
  The loop over \<^verbatim>\<open>model.__table__.columns\<close>, with the dictionary and the primary key
  name built so far. \<^verbatim>\<open>model.__searchable__\<close> is read at each column, and raises
  \<^verbatim>\<open>AttributeError\<close> when the class declares none. The second \<^verbatim>\<open>if\<close> is not an
  \<^verbatim>\<open>elif\<close>: it also runs for a primary key column. The final \<^verbatim>\<open>Schema(**schema)\<close> is
  taken to accept the dictionary as it is; the index engine refuses a field name that
  starts with an underscore or contains a space, which column names are assumed not to do.
\<close>

fun schema_loop ::
  "string list option \<Rightarrow> column list \<Rightarrow> schema \<Rightarrow> string option
     \<Rightarrow> error + (schema \<times> string option)" where
  "schema_loop srch [] schema primary = Inr (schema, primary)"
| "schema_loop srch (field # cols) schema primary =
     (let schema1 = (if primary_key field then schema(name field \<mapsto> ID True True) else schema);
          primary1 = (if primary_key field then Some (name field) else primary)
      in case srch of
           None \<Rightarrow> Inl (AttributeError ''__searchable__'')
         | Some names \<Rightarrow>
             schema_loop srch cols
               (if name field \<in> set names \<and> is_textual (type field)
                then schema1(name field \<mapsto> TEXT StemmingAnalyzer) else schema1)
               primary1)"

definition get_whoosh_schema_and_primary :: "row \<Rightarrow> error + (schema \<times> string option)" where
  "get_whoosh_schema_and_primary m =
     schema_loop (searchable (cls m)) (columns (cls m)) Map.empty None"

section \<open>\<^verbatim>\<open>_whoosh_index\<close>\<close>

text \<open>
  The state the module reads and writes. Two fields are the state of the application
  object \<^verbatim>\<open>app\<close>: its \<^verbatim>\<open>whoosh_indexes\<close> attribute (\<open>None\<close> while it has no such
  attribute) and its configuration value \<^verbatim>\<open>WHOOSH_BASE\<close>. The other three are the state
  of the process: the directories that hold an index, and the class attributes
  \<^verbatim>\<open>query\<close> and \<^verbatim>\<open>pure_whoosh\<close>; a class is identified by its name.
\<close>

record world =
  whoosh_indexes :: "(string \<rightharpoonup> index) option"
  WHOOSH_BASE :: "string option"
  fs :: "string \<rightharpoonup> stored_index"
  class_query :: "string \<Rightarrow> query"
  pure_whoosh :: "string \<rightharpoonup> searcher"

text \<open>
  Another application object in the same process: it has no \<^verbatim>\<open>whoosh_indexes\<close>
  attribute yet and its own configuration value; the directories and the classes are
  those of the process.
\<close>

definition another_app :: "string option \<Rightarrow> world \<Rightarrow> world" where
  "another_app base w = w\<lparr>whoosh_indexes := None, WHOOSH_BASE := base\<rparr>"

text \<open>\<^verbatim>\<open>os.path.join(a, b)\<close> on a POSIX system.\<close>

definition path_join :: "string \<Rightarrow> string \<Rightarrow> string" where
  "path_join a b =
     (if b \<noteq> [] \<and> hd b = CHR ''/'' then b
      else if a = [] \<or> last a = CHR ''/'' then a @ b
      else a @ ''/'' @ b)"

text \<open>\<^verbatim>\<open>_Searcher.__init__\<close>.\<close>

definition Searcher_init :: "string option \<Rightarrow> index \<Rightarrow> searcher" where
  "Searcher_init primary indx =
     \<lparr>s_primary_key_name = primary, s_index = indx,
      all_fields = dom (idx_schema indx) - set_option primary\<rparr>"

text \<open>
  \<^verbatim>\<open>_QueryProxy.__init__\<close>: a copy of the state of \<open>query_obj\<close>, with the fields of the
  proxy set.
\<close>

definition QueryProxy_init :: "query \<Rightarrow> string option \<Rightarrow> searcher \<Rightarrow> row \<Rightarrow> query" where
  "QueryProxy_init query_obj pkn s m =
     \<lparr>criteria = criteria query_obj,
      proxy = Some \<lparr>primary_key_name = pkn, whoosh_searcher = s, model = m,
                     whoosh_rank = None\<rparr>\<rparr>"

text \<open>
  The directory of a class's index: \<^verbatim>\<open>WHOOSH_BASE\<close>, or \<^verbatim>\<open>whoosh_index\<close> when the
  configuration has no (or an empty) value, joined with the class name.
\<close>

definition whoosh_base :: "world \<Rightarrow> string" where
  "whoosh_base w =
     (case WHOOSH_BASE w of
        None \<Rightarrow> ''whoosh_index''
      | Some b \<Rightarrow> if b = [] then ''whoosh_index'' else b)"

text \<open>
  \<^verbatim>\<open>_whoosh_index(app, model)\<close> returns the index and the new state. Whether the
  directory exists without an index in it makes no difference to the result: in both
  cases \<^verbatim>\<open>create_in\<close> leaves an empty index with the derived schema there.
\<close>

definition whoosh_index :: "world \<Rightarrow> row \<Rightarrow> error + (index \<times> world)" where
  "whoosh_index app m =
     (let indexes = (case whoosh_indexes app of None \<Rightarrow> Map.empty | Some d \<Rightarrow> d);
          app1 = app\<lparr>whoosh_indexes := Some indexes\<rparr>;
          cn = cname (cls m)
      in case indexes cn of
           Some indx \<Rightarrow> Inr (indx, app1)
         | None \<Rightarrow>
             (let app2 = app1\<lparr>WHOOSH_BASE := Some (whoosh_base app1)\<rparr>;
                  wi = path_join (whoosh_base app1) cn
              in case get_whoosh_schema_and_primary m of
                   Inl e \<Rightarrow> Inl e
                 | Inr (schema, primary) \<Rightarrow>
                     (let (indx, app3) =
                            (case fs app2 wi of
                               Some st \<Rightarrow> (\<lparr>idx_dir = wi, idx_schema = st_schema st\<rparr>, app2)
                             | None \<Rightarrow>
                                 (\<lparr>idx_dir = wi, idx_schema = schema\<rparr>,
                                  app2\<lparr>fs := (fs app2)(wi \<mapsto>
                                     \<lparr>st_schema = schema, st_docs = []\<rparr>)\<rparr>));
                          app4 = app3\<lparr>whoosh_indexes := Some (indexes(cn \<mapsto> indx))\<rparr>;
                          s = Searcher_init primary indx;
                          app5 = app4\<lparr>class_query := (class_query app4)
                                   (cn := QueryProxy_init (class_query app4 cn) primary s m)\<rparr>
                      in Inr (indx, app5\<lparr>pure_whoosh := (pure_whoosh app5)(cn \<mapsto> s)\<rparr>))))"

section \<open>The index writer\<close>

text \<open>
  The writer of the index engine, modelled from the engine's documentation and behaviour.
  A writer works on the committed documents of its index and collects the documents it
  adds; leaving the \<^verbatim>\<open>with\<close> block normally commits both, leaving it by an exception
  cancels the writer. Deletion reaches committed documents only, not those the same
  writer has added.

  A document has a term in a field when the field is an identifier field with exactly
  that value, or an analyzed-text field one of whose tokens is the term. The analyzer is
  a black box, taken as the parameter \<open>analyze\<close>.
\<close>

record writer =
  wr_index :: index
  wr_docs :: "doc list"
  wr_added :: "doc list"

definition index_writer :: "world \<Rightarrow> index \<Rightarrow> error + writer" where
  "index_writer app indx =
     (case fs app (idx_dir indx) of
        None \<Rightarrow> Inl (EmptyIndexError (idx_dir indx))
      | Some st \<Rightarrow> Inr \<lparr>wr_index = indx, wr_docs = st_docs st, wr_added = []\<rparr>)"

definition has_term ::
  "(analyzer \<Rightarrow> string \<Rightarrow> string list) \<Rightarrow> schema \<Rightarrow> doc \<Rightarrow> string \<Rightarrow> string \<Rightarrow> bool" where
  "has_term analyze sch d fieldname text =
     (case sch fieldname of
        None \<Rightarrow> False
      | Some f \<Rightarrow>
          (case map_of d fieldname of
             None \<Rightarrow> False
           | Some v \<Rightarrow> (case f of ID st un \<Rightarrow> v = text | TEXT an \<Rightarrow> text \<in> set (analyze an v))))"

text \<open>The terms of a document in the fields that the schema declares unique.\<close>

definition unique_terms :: "schema \<Rightarrow> doc \<Rightarrow> (string \<times> string) list" where
  "unique_terms sch d =
     filter (\<lambda>(n, v). case sch n of None \<Rightarrow> False | Some f \<Rightarrow> unique f) d"

text \<open>The number of the first document that satisfies \<open>P\<close>.\<close>

fun first_index :: "('a \<Rightarrow> bool) \<Rightarrow> 'a list \<Rightarrow> nat option" where
  "first_index P [] = None"
| "first_index P (x # xs) = (if P x then Some 0 else map_option Suc (first_index P xs))"

text \<open>
  \<^verbatim>\<open>update_document\<close>: for each unique field of the new document, the first committed
  document with the same term in that field is found; the documents found are deleted,
  and the new document is added. A field that the schema does not have is rejected.
\<close>

definition update_document ::
  "(analyzer \<Rightarrow> string \<Rightarrow> string list) \<Rightarrow> writer \<Rightarrow> doc \<Rightarrow> error + writer" where
  "update_document analyze wr d =
     (let sch = idx_schema (wr_index wr) in
      if list_ex (\<lambda>(n, v). sch n = None) d then Inl UnknownFieldError
      else
        (let found = List.map_filter
               (\<lambda>(n, v). first_index (\<lambda>old. has_term analyze sch old n v) (wr_docs wr))
               (unique_terms sch d)
         in Inr (wr\<lparr>wr_docs := map snd (filter (\<lambda>(i, old). i \<notin> set found)
                                             (enumerate 0 (wr_docs wr))),
                      wr_added := wr_added wr @ [d]\<rparr>)))"

text \<open>\<^verbatim>\<open>delete_by_term\<close>: every committed document with the term in the field is deleted.\<close>

definition delete_by_term ::
  "(analyzer \<Rightarrow> string \<Rightarrow> string list) \<Rightarrow> writer \<Rightarrow> string \<Rightarrow> string \<Rightarrow> writer" where
  "delete_by_term analyze wr fieldname text =
     wr\<lparr>wr_docs := filter (\<lambda>old. \<not> has_term analyze (idx_schema (wr_index wr)) old fieldname text)
                        (wr_docs wr)\<rparr>"

definition writer_commit :: "world \<Rightarrow> writer \<Rightarrow> world" where
  "writer_commit app wr =
     (let dir = idx_dir (wr_index wr);
          sch = (case fs app dir of None \<Rightarrow> idx_schema (wr_index wr) | Some st \<Rightarrow> st_schema st)
      in app\<lparr>fs := (fs app)(dir \<mapsto> \<lparr>st_schema = sch, st_docs = wr_docs wr @ wr_added wr\<rparr>)\<rparr>)"

section \<open>\<^verbatim>\<open>_after_flush\<close>\<close>

text \<open>
  A change is a record with the name of its operation. \<^verbatim>\<open>bytype\<close> is a dictionary from
  class names to lists, built here in the order in which its keys were first inserted.
  The order in which \<^verbatim>\<open>bytype.iteritems()\<close> yields the items is that of the dictionary's
  hash table: it is the parameter \<open>iteritems\<close>, some rearrangement of the items.
\<close>

type_synonym change = "row \<times> string"

type_synonym bytype = "(string \<times> (bool \<times> row) list) list"

text \<open>\<^verbatim>\<open>bytype.setdefault(k, []).append(x)\<close>.\<close>

fun setdefault_append :: "bytype \<Rightarrow> string \<Rightarrow> bool \<times> row \<Rightarrow> bytype" where
  "setdefault_append [] k x = [(k, [x])]"
| "setdefault_append ((k', xs) # rest) k x =
     (if k' = k then (k', xs @ [x]) # rest else (k', xs) # setdefault_append rest k x)"

text \<open>The first loop, \<^verbatim>\<open>for change in changes\<close>, with the dictionary built so far.\<close>

fun collect_changes :: "change list \<Rightarrow> bytype \<Rightarrow> bytype" where
  "collect_changes [] bytype = bytype"
| "collect_changes (change # changes) bytype =
     (let update = (snd change = ''update'' \<or> snd change = ''insert'') in
      if searchable (cls (fst change)) \<noteq> None
      then collect_changes changes
             (setdefault_append bytype (cname (cls (fst change))) (update, fst change))
      else collect_changes changes bytype)"

text \<open>
  The loop \<^verbatim>\<open>for key in searchable\<close> that fills \<^verbatim>\<open>attrs\<close>; an \<^verbatim>\<open>AttributeError\<close> of
  \<^verbatim>\<open>getattr\<close> is raised again with the module's message, an error of \<^verbatim>\<open>unicode\<close> is
  not caught.
\<close>

fun build_attrs :: "string \<Rightarrow> row \<Rightarrow> string list \<Rightarrow> doc \<Rightarrow> error + doc" where
  "build_attrs mname v [] attrs = Inr attrs"
| "build_attrs mname v (key # keys) attrs =
     (case getattr v (Some key) of
        Inl (AttributeError a) \<Rightarrow>
          Inl (AttributeError (mname @ '' does not have __searchable__ field '' @ key))
      | Inl e \<Rightarrow> Inl e
      | Inr x \<Rightarrow>
          (case unicode x of
             Inl e \<Rightarrow> Inl e
           | Inr u \<Rightarrow> build_attrs mname v keys (AList.update key u attrs)))"

text \<open>The loop \<^verbatim>\<open>for update, v in values\<close> on one writer.\<close>

fun write_values ::
  "(analyzer \<Rightarrow> string \<Rightarrow> string list) \<Rightarrow> string \<Rightarrow> string option \<Rightarrow> string list \<Rightarrow> writer
     \<Rightarrow> (bool \<times> row) list \<Rightarrow> error + writer" where
  "write_values analyze mname primary_field srch wr [] = Inr wr"
| "write_values analyze mname primary_field srch wr ((update, v) # values) =
     (if update then
        (case build_attrs mname v srch [] of
           Inl e \<Rightarrow> Inl e
         | Inr attrs \<Rightarrow>
             (case primary_field of
                None \<Rightarrow> Inl TypeError
              | Some pf \<Rightarrow>
                  (case getattr v (Some pf) of
                     Inl e \<Rightarrow> Inl e
                   | Inr x \<Rightarrow>
                       (case unicode x of
                          Inl e \<Rightarrow> Inl e
                        | Inr u \<Rightarrow>
                            (case update_document analyze wr (AList.update pf u attrs) of
                               Inl e \<Rightarrow> Inl e
                             | Inr wr' \<Rightarrow>
                                 write_values analyze mname primary_field srch wr' values)))))
      else
        (case primary_field of
           None \<Rightarrow> Inl TypeError
         | Some pf \<Rightarrow>
             (case getattr v (Some pf) of
                Inl e \<Rightarrow> Inl e
              | Inr x \<Rightarrow>
                  (case unicode x of
                     Inl e \<Rightarrow> Inl e
                   | Inr u \<Rightarrow>
                       write_values analyze mname primary_field srch
                         (delete_by_term analyze wr pf u) values))))"

text \<open>
  The second loop, \<^verbatim>\<open>for model, values in bytype.iteritems()\<close>, on the items in the order
  given. The index, the primary key name and the searchable names are those of the first
  record of the list.
\<close>

fun write_types ::
  "(analyzer \<Rightarrow> string \<Rightarrow> string list) \<Rightarrow> world \<Rightarrow> bytype \<Rightarrow> error + world" where
  "write_types analyze app [] = Inr app"
| "write_types analyze app ((mname, values) # rest) =
     (case values of
        [] \<Rightarrow> Inl IndexError
      | (u0, v0) # vs \<Rightarrow>
          (case whoosh_index app v0 of
             Inl e \<Rightarrow> Inl e
           | Inr (indx, app1) \<Rightarrow>
               (case index_writer app1 indx of
                  Inl e \<Rightarrow> Inl e
                | Inr wr \<Rightarrow>
                    (case pure_whoosh app1 (cname (cls v0)) of
                       None \<Rightarrow> Inl (AttributeError ''pure_whoosh'')
                     | Some s \<Rightarrow>
                         (case searchable (cls v0) of
                            None \<Rightarrow> Inl (AttributeError ''__searchable__'')
                          | Some srch \<Rightarrow>
                              (case write_values analyze mname (s_primary_key_name s) srch wr
                                      values of
                                 Inl e \<Rightarrow> Inl e
                               | Inr wr' \<Rightarrow>
                                   write_types analyze (writer_commit app1 wr') rest))))))"

definition after_flush ::
  "(bytype \<Rightarrow> bytype) \<Rightarrow> (analyzer \<Rightarrow> string \<Rightarrow> string list) \<Rightarrow> world \<Rightarrow> change list
     \<Rightarrow> error + world" where
  "after_flush iteritems analyze app changes =
     write_types analyze app (iteritems (collect_changes changes []))"

section \<open>Notions used in the statements\<close>

text \<open>
  The changes of one commit that concern the class named \<open>n\<close>, in the order of the
  commit: those whose class declares searchable names, each with the flag that is true
  exactly for the operations insert and update.
\<close>

definition changes_of_type :: "string \<Rightarrow> change list \<Rightarrow> (bool \<times> row) list" where
  "changes_of_type n changes =
     map (\<lambda>c. (snd c = ''insert'' \<or> snd c = ''update'', fst c))
       (filter (\<lambda>c. searchable (cls (fst c)) \<noteq> None \<and> cname (cls (fst c)) = n) changes)"

text \<open>
  The rank that the rank map gives a row: the rank of the string form of its primary key
  (\<open>None\<close> when the row has no such attribute, when the attribute has no string form,
  or when the key is not in the rank map).
\<close>

definition rank_of :: "(string \<rightharpoonup> nat) \<Rightarrow> string option \<Rightarrow> row \<Rightarrow> nat option" where
  "rank_of rk pk r =
     (case getattr r pk of
        Inl e \<Rightarrow> None
      | Inr v \<Rightarrow> (case unicode v of Inl e \<Rightarrow> None | Inr k \<Rightarrow> rk k))"

text \<open>
  The string form of an attribute of a record (\<open>None\<close> when the record has no such
  attribute or \<^verbatim>\<open>unicode\<close> raises on it).
\<close>

definition text_of :: "row \<Rightarrow> string \<Rightarrow> string option" where
  "text_of r key =
     (case obj_attrs r key of
        None \<Rightarrow> None
      | Some x \<Rightarrow> (case unicode x of Inl e \<Rightarrow> None | Inr u \<Rightarrow> Some u))"

text \<open>A document is a document for a key when its key field has that value.\<close>

definition matches :: "doc \<Rightarrow> string \<Rightarrow> string \<Rightarrow> bool" where
  "matches d fieldname text = (map_of d fieldname = Some text)"

text \<open>The documents of an index for a key: those whose key field has that value.\<close>

definition docs_for :: "string \<Rightarrow> string \<Rightarrow> doc list \<Rightarrow> doc list" where
  "docs_for fieldname text docs = filter (\<lambda>d. matches d fieldname text) docs"

section \<open>Example data\<close>

definition Article :: pyclass where
  "Article = \<lparr>cname = ''Article'', searchable = Some [''title'', ''body''],
     columns = [\<lparr>name = ''id'', primary_key = True, type = Integer\<rparr>,
                \<lparr>name = ''title'', primary_key = False, type = String\<rparr>,
                \<lparr>name = ''body'', primary_key = False, type = Text\<rparr>]\<rparr>"

definition article :: "nat \<Rightarrow> int \<Rightarrow> string \<Rightarrow> string \<Rightarrow> row" where
  "article oid i t b =
     \<lparr>cls = Article,
      obj_attrs = [''id'' \<mapsto> PInt i, ''title'' \<mapsto> PUnicode t, ''body'' \<mapsto> PUnicode b],
      ident = oid\<rparr>"

definition a1 :: row where "a1 = article 100 1 ''red fox'' ''jumps''"
definition a2 :: row where "a2 = article 101 2 ''blue sky'' ''fox runs''"
definition a3 :: row where "a3 = article 102 3 ''green'' ''grass''"

definition article_schema :: schema where
  "article_schema = [''id'' \<mapsto> ID True True, ''title'' \<mapsto> TEXT StemmingAnalyzer,
     ''body'' \<mapsto> TEXT StemmingAnalyzer]"

definition article_index :: index where
  "article_index = \<lparr>idx_dir = ''whoosh_index/Article'', idx_schema = article_schema\<rparr>"

definition article_searcher :: searcher where
  "article_searcher = \<lparr>s_primary_key_name = Some ''id'', s_index = article_index,
     all_fields = {''title'', ''body''}\<rparr>"

definition plain_query :: query where
  "plain_query = \<lparr>criteria = [], proxy = None\<rparr>"

definition ranked_query :: "(string \<rightharpoonup> nat) \<Rightarrow> query" where
  "ranked_query rk = \<lparr>criteria = [], proxy = Some \<lparr>primary_key_name = Some ''id'',
     whoosh_searcher = article_searcher, model = a1, whoosh_rank = Some rk\<rparr>\<rparr>"

definition rk_ex :: "string \<rightharpoonup> nat" where
  "rk_ex = [''2'' \<mapsto> 0, ''3'' \<mapsto> 1, ''1'' \<mapsto> 2]"

definition article_query :: query where
  "article_query = \<lparr>criteria = [], proxy = Some \<lparr>primary_key_name = Some ''id'',
     whoosh_searcher = article_searcher, model = a1, whoosh_rank = None\<rparr>\<rparr>"

definition class_query_ex :: "string \<Rightarrow> query" where
  "class_query_ex n = article_query"

definition eng_ex :: engine where
  "eng_ex indx flds g q limit =
     (if q = PUnicode ''fox'' \<or> q = PUnicode ''2''
      then [[''id'' \<mapsto> ''2''], [''id'' \<mapsto> ''1'']] else [])"

definition cafe_bytes :: string where
  "cafe_bytes = [CHR ''c'', CHR ''a'', CHR ''f'', CHR 0xC3, CHR 0xA9]"

text \<open>A dictionary that yields its items in the order of their first insertion.\<close>

definition insertion_order :: "bytype \<Rightarrow> bytype" where
  "insertion_order B = B"

definition analyze_ex :: "analyzer \<Rightarrow> string \<Rightarrow> string list" where
  "analyze_ex an s = [s]"

definition app0 :: world where
  "app0 = \<lparr>whoosh_indexes = None, WHOOSH_BASE = None, fs = Map.empty,
            class_query = (\<lambda>n. plain_query), pure_whoosh = Map.empty\<rparr>"

definition app_cached :: world where
  "app_cached = \<lparr>whoosh_indexes = Some [''Article'' \<mapsto> article_index], WHOOSH_BASE = None,
      fs = [''whoosh_index/Article'' \<mapsto> \<lparr>st_schema = article_schema, st_docs = []\<rparr>],
      class_query = (\<lambda>n. article_query), pure_whoosh = [''Article'' \<mapsto> article_searcher]\<rparr>"

definition app_first :: world where
  "app_first = \<lparr>whoosh_indexes = Some [''Article'' \<mapsto> article_index],
      WHOOSH_BASE = Some ''whoosh_index'',
      fs = [''whoosh_index/Article'' \<mapsto> \<lparr>st_schema = article_schema, st_docs = []\<rparr>],
      class_query = (\<lambda>n. plain_query)(''Article'' := article_query),
      pure_whoosh = [''Article'' \<mapsto> article_searcher]\<rparr>"

definition app_second :: world where
  "app_second = app_first\<lparr>class_query := (\<lambda>n. plain_query)(''Article'' :=
      \<lparr>criteria = [], proxy = Some \<lparr>primary_key_name = Some ''id'',
         whoosh_searcher = article_searcher, model = a2, whoosh_rank = None\<rparr>\<rparr>)\<rparr>"

definition Tag :: pyclass where
  "Tag = \<lparr>cname = ''Tag'', searchable = Some [''slug''],
     columns = [\<lparr>name = ''slug'', primary_key = True, type = String\<rparr>]\<rparr>"

definition tag :: row where
  "tag = \<lparr>cls = Tag, obj_attrs = [''slug'' \<mapsto> PUnicode ''fox''], ident = 200\<rparr>"



definition Plain :: pyclass where
  "Plain = \<lparr>cname = ''Plain'', searchable = None,
     columns = [\<lparr>name = ''id'', primary_key = True, type = Integer\<rparr>]\<rparr>"

definition plain :: row where
  "plain = \<lparr>cls = Plain, obj_attrs = [''id'' \<mapsto> PInt 1], ident = 400\<rparr>"

definition bad :: row where
  "bad = \<lparr>cls = Article, obj_attrs = [''id'' \<mapsto> PInt 5, ''title'' \<mapsto> PUnicode ''x''],
     ident = 500\<rparr>"

definition a1b :: row where "a1b = article 100 1 ''green fox'' ''jumps''"

definition doc1 :: doc where
  "doc1 = [(''title'', ''red fox''), (''body'', ''jumps''), (''id'', ''1'')]"

definition doc1b :: doc where
  "doc1b = [(''title'', ''green fox''), (''body'', ''jumps''), (''id'', ''1'')]"

definition app_docs :: "doc list \<Rightarrow> world" where
  "app_docs docs = app_first\<lparr>fs := [''whoosh_index/Article'' \<mapsto>
      \<lparr>st_schema = article_schema, st_docs = docs\<rparr>]\<rparr>"

definition tag_schema :: schema where
  "tag_schema = [''slug'' \<mapsto> TEXT StemmingAnalyzer]"

definition tag_index :: index where
  "tag_index = \<lparr>idx_dir = ''whoosh_index/Tag'', idx_schema = tag_schema\<rparr>"

definition tag_searcher :: searcher where
  "tag_searcher = \<lparr>s_primary_key_name = Some ''slug'', s_index = tag_index, all_fields = {}\<rparr>"

definition app_tag :: "doc list \<Rightarrow> world" where
  "app_tag docs = \<lparr>whoosh_indexes = Some [''Tag'' \<mapsto> tag_index],
      WHOOSH_BASE = Some ''whoosh_index'',
      fs = [''whoosh_index/Tag'' \<mapsto> \<lparr>st_schema = tag_schema, st_docs = docs\<rparr>],
      class_query = (\<lambda>n. plain_query)(''Tag'' :=
         \<lparr>criteria = [], proxy = Some \<lparr>primary_key_name = Some ''slug'',
            whoosh_searcher = tag_searcher, model = tag, whoosh_rank = None\<rparr>\<rparr>),
      pure_whoosh = [''Tag'' \<mapsto> tag_searcher]\<rparr>"

section \<open>Properties of the query proxy\<close>

lemma heappop_Cons: "heappop (x # xs) \<noteq> None"
  by (simp split: option.splits prod.splits)

lemma heappop_None: "(heappop h = None) = (h = [])"
proof (cases h)
  case Nil
  then show ?thesis by simp
next
  case (Cons x xs)
  then show ?thesis using heappop_Cons [of x xs] by (simp del: heappop.simps)
qed

lemma heappop_mset: "heappop h = Some (m, rest) \<Longrightarrow> mset h = add_mset m (mset rest)"
  by (induction h arbitrary: m rest) (auto simp: heappop_None split: option.splits if_splits)

lemma heappop_min: "heappop h = Some (m, rest) \<Longrightarrow> \<forall>y\<in>set h. fst m \<le> fst y"
proof (induction h arbitrary: m rest)
  case Nil
  then show ?case by simp
next
  case (Cons x xs)
  show ?case
  proof (cases "heappop xs")
    case None
    then have "xs = []" by (simp add: heappop_None)
    with Cons.prems None show ?thesis by auto
  next
    case (Some a)
    obtain m' rest' where a: "a = (m', rest')" by (cases a)
    have le: "\<And>z. z \<in> set xs \<Longrightarrow> fst m' \<le> fst z"
      using Cons.IH [of m' rest'] Some a by simp
    show ?thesis
    proof (cases "tuple_lt m' x")
      case True
      then have "m = m'" using Cons.prems(1) Some a by simp
      moreover have "fst m' \<le> fst x" using True by (auto simp: tuple_lt_def)
      ultimately show ?thesis using le by auto
    next
      case False
      then have mx: "m = x" using Cons.prems(1) Some a by simp
      have "m' \<in> set xs" using heappop_mset [OF Some [unfolded a]]
        by (metis union_single_eq_member set_mset_mset)
      have "fst x \<le> fst m'" using False by (auto simp: tuple_lt_def)
      then show ?thesis using le mx \<open>m' \<in> set xs\<close> by fastforce
    qed
  qed
qed

lemma inner_mset: "mset (inner h) = mset (map snd h)"
proof (induction h rule: inner.induct)
  case (1 h)
  show ?case
  proof (cases "heappop h")
    case None
    then show ?thesis by (simp add: inner.simps [of "[]"] heappop_None)
  next
    case (Some a)
    obtain m rest where a: "a = (m, rest)" by (cases a)
    have "mset (inner rest) = mset (map snd rest)"
      using 1 [OF Some a [symmetric]] .
    then show ?thesis
      using heappop_mset [OF Some [unfolded a]] Some a
      by (simp add: inner.simps [of h])
  qed
qed

lemma inner_sorted:
  "\<forall>x\<in>set h. fst x = f (snd x) \<Longrightarrow> sorted (map f (inner h))"
proof (induction h rule: inner.induct)
  case (1 h)
  show ?case
  proof (cases "heappop h")
    case None
    then show ?thesis by (simp add: inner.simps [of h])
  next
    case (Some a)
    obtain m rest where a: "a = (m, rest)" by (cases a)
    have ms: "mset h = add_mset m (mset rest)" using heappop_mset Some a by simp
    then have sub: "set rest \<subseteq> set h" and mh: "m \<in> set h"
      by (metis set_mset_mset set_mset_add_mset_insert subset_insertI,
          metis set_mset_mset union_single_eq_member)
    have "\<forall>x\<in>set rest. fst x = f (snd x)" using 1(2) sub by auto
    then have IH: "sorted (map f (inner rest))"
      using 1(1) [OF Some a [symmetric]] by simp
    have "\<forall>r\<in>set (inner rest). f (snd m) \<le> f r"
    proof
      fix r assume "r \<in> set (inner rest)"
      then have "r \<in> set (map snd rest)"
        by (metis inner_mset set_mset_mset)
      then obtain y where y: "y \<in> set rest" "r = snd y" by auto
      then have "fst m \<le> fst y" using heappop_min [OF Some [unfolded a]] sub by blast
      then show "f (snd m) \<le> f r" using 1(2) y sub mh by auto
    qed
    then show ?thesis using IH Some a by (simp add: inner.simps [of h])
  qed
qed

lemma push_rows_ok:
  "\<forall>r\<in>set rs. rank_of rk pk r \<noteq> None \<Longrightarrow>
   push_rows rk pk h rs = Inr (h @ map (\<lambda>r. (the (rank_of rk pk r), r)) rs)"
  by (induction rs arbitrary: h) (auto simp: rank_of_def heappush_def split: sum.splits option.splits)

lemma push_rows_fail:
  "r \<in> set rs \<Longrightarrow> getattr r pk = Inr v \<Longrightarrow> unicode v = Inr k \<Longrightarrow> rk k = None \<Longrightarrow>
   \<exists>e. push_rows rk pk h rs = Inl e \<and>
     ((\<forall>r\<in>set rs. \<exists>v k. getattr r pk = Inr v \<and> unicode v = Inr k)
        \<longrightarrow> (\<exists>k. e = KeyError k \<and> rk k = None))"
proof (induction rs arbitrary: h)
  case Nil
  then show ?case by simp
next
  case (Cons x xs)
  show ?case
  proof (cases "getattr x pk")
    case (Inl e)
    then show ?thesis by auto
  next
    case (Inr w)
    show ?thesis
    proof (cases "unicode w")
      case ue: (Inl e)
      then show ?thesis using Inr by auto
    next
      case uk: (Inr kw)
      show ?thesis
      proof (cases "rk kw")
        case None
        then show ?thesis using Inr uk by auto
      next
        case (Some n)
        then have "r \<in> set xs" using Cons.prems Inr uk by auto
        from Cons.IH [OF this Cons.prems(2,3,4)] show ?thesis using Inr uk Some by auto
      qed
    qed
  qed
qed

text \<open>
  Claim C1. A query with no rank map (a plain query, or a proxy whose \<^verbatim>\<open>_whoosh_rank\<close> is
  \<^verbatim>\<open>None\<close>) iterates as the relational iterator, unchanged. A proxy with a rank map,
  every returned row of which has a ranked key, yields exactly the rows of the relational
  iteration (as a multiset), in non-decreasing rank order.
\<close>

theorem QueryProxy_iter_rank_order:
  "((proxy q = None \<or> (\<exists>p. proxy q = Some p \<and> whoosh_rank p = None))
      \<longrightarrow> QueryProxy_iter db q = Inr (Query_iter db q)) \<and>
   (\<forall>p rk. proxy q = Some p \<and> whoosh_rank p = Some rk \<and>
        (\<forall>r\<in>set (Query_iter db q). rank_of rk (primary_key_name p) r \<noteq> None)
      \<longrightarrow> (\<exists>ys. QueryProxy_iter db q = Inr ys \<and>
             mset ys = mset (Query_iter db q) \<and>
             sorted (map (\<lambda>r. the (rank_of rk (primary_key_name p) r)) ys)))"
proof (intro conjI impI allI)
  assume "proxy q = None \<or> (\<exists>p. proxy q = Some p \<and> whoosh_rank p = None)"
  then show "QueryProxy_iter db q = Inr (Query_iter db q)"
    by (auto simp: QueryProxy_iter_def)
next
  fix p rk
  assume a: "proxy q = Some p \<and> whoosh_rank p = Some rk \<and>
        (\<forall>r\<in>set (Query_iter db q). rank_of rk (primary_key_name p) r \<noteq> None)"
  let ?f = "\<lambda>r. the (rank_of rk (primary_key_name p) r)"
  let ?h = "map (\<lambda>r. (?f r, r)) (Query_iter db q)"
  have push: "push_rows rk (primary_key_name p) [] (Query_iter db q) = Inr ?h"
    using push_rows_ok [of "Query_iter db q" rk "primary_key_name p" "[]"] a by simp
  have res: "QueryProxy_iter db q = Inr (inner ?h)"
    using a push by (simp add: QueryProxy_iter_def)
  have m: "mset (inner ?h) = mset (Query_iter db q)"
    by (simp add: inner_mset comp_def)
  have s: "sorted (map ?f (inner ?h))"
    by (rule inner_sorted) auto
  show "\<exists>ys. QueryProxy_iter db q = Inr ys \<and> mset ys = mset (Query_iter db q) \<and>
             sorted (map ?f ys)"
    using res m s by blast
qed

text \<open>
  Claim C2. When the relational iteration of a ranked proxy returns a row whose primary
  key, as a string, is not in the rank map, \<^verbatim>\<open>__iter__\<close> raises: no list of rows is
  returned, so the row is neither reordered nor dropped. When every returned row has the
  primary key attribute, with a string form, the exception is the \<^verbatim>\<open>KeyError\<close> of the
  rank map lookup, for a key that the rank map lacks.
\<close>

theorem QueryProxy_iter_missing_key:
  assumes "proxy q = Some p" and "whoosh_rank p = Some rk"
    and "r \<in> set (Query_iter db q)"
    and "getattr r (primary_key_name p) = Inr v"
    and "unicode v = Inr k" and "rk k = None"
  shows "\<exists>e. QueryProxy_iter db q = Inl e \<and>
     ((\<forall>r\<in>set (Query_iter db q).
          \<exists>v k. getattr r (primary_key_name p) = Inr v \<and> unicode v = Inr k)
        \<longrightarrow> (\<exists>k. e = KeyError k \<and> rk k = None))"
proof -
  obtain e where e: "push_rows rk (primary_key_name p) [] (Query_iter db q) = Inl e"
     "(\<forall>r\<in>set (Query_iter db q).
          \<exists>v k. getattr r (primary_key_name p) = Inr v \<and> unicode v = Inr k)
        \<longrightarrow> (\<exists>k. e = KeyError k \<and> rk k = None)"
    using push_rows_fail [of r "Query_iter db q" "primary_key_name p" v k rk "[]"]
      assms(3,4,5,6)
    by blast
  then show ?thesis using assms(1,2) by (auto simp: QueryProxy_iter_def)
qed

lemma dec_int_1: "dec_int 1 = ''1''" by code_simp
lemma dec_int_2: "dec_int 2 = ''2''" by code_simp
lemma dec_int_3: "dec_int 3 = ''3''" by code_simp
lemmas dec_ints = dec_int_1 dec_int_2 dec_int_3

lemma Query_iter_no_criteria: "criteria q = [] \<Longrightarrow> Query_iter db q = db"
  by (simp add: Query_iter_def)

lemma qi: "Query_iter db (ranked_query rk) = db"
  by (simp add: Query_iter_no_criteria ranked_query_def)

lemmas ex_defs = a1_def a2_def a3_def article_def getattr_def rk_ex_def dec_ints

theorem QueryProxy_iter_rank_order_witness:
  "QueryProxy_iter [a1, a2, a3] plain_query = Inr (Query_iter [a1, a2, a3] plain_query) \<and>
   list_all (\<lambda>r. rank_of rk_ex (Some ''id'') r \<noteq> None)
     (Query_iter [a1, a2, a3] (ranked_query rk_ex)) \<and>
   (\<exists>ys. QueryProxy_iter [a1, a2, a3] (ranked_query rk_ex) = Inr ys \<and>
      mset ys = mset (Query_iter [a1, a2, a3] (ranked_query rk_ex)) \<and>
      sorted (map (\<lambda>r. the (rank_of rk_ex (Some ''id'') r)) ys))"
proof -
  have h: "\<forall>r\<in>set (Query_iter [a1, a2, a3] (ranked_query rk_ex)). rank_of rk_ex (Some ''id'') r \<noteq> None"
    unfolding qi by (simp add: rank_of_def ex_defs)
  have p: "proxy plain_query = None" by (simp add: plain_query_def)
  show ?thesis
    using h p QueryProxy_iter_rank_order [of plain_query "[a1, a2, a3]"]
      QueryProxy_iter_rank_order [of "ranked_query rk_ex" "[a1, a2, a3]"]
    by (simp add: ranked_query_def list_all_iff)
qed

theorem QueryProxy_iter_missing_key_witness:
  "a3 \<in> set (Query_iter [a1, a2, a3] (ranked_query [''1'' \<mapsto> 0, ''2'' \<mapsto> 1])) \<and>
   getattr a3 (Some ''id'') = Inr (PInt 3) \<and>
   unicode (PInt 3) = Inr ''3'' \<and>
   [''1'' \<mapsto> 0, ''2'' \<mapsto> 1 :: nat] ''3'' = None \<and>
   (\<exists>k. QueryProxy_iter [a1, a2, a3] (ranked_query [''1'' \<mapsto> 0, ''2'' \<mapsto> 1]) = Inl (KeyError k))"
proof -
  let ?rk = "[''1'' \<mapsto> 0, ''2'' \<mapsto> 1 :: nat]"
  let ?p = "\<lparr>primary_key_name = Some ''id'', whoosh_searcher = article_searcher,
     model = a1, whoosh_rank = Some ?rk\<rparr>"
  have 1: "proxy (ranked_query ?rk) = Some ?p" by (simp add: ranked_query_def)
  have 2: "whoosh_rank ?p = Some ?rk" by simp
  have 3: "a3 \<in> set (Query_iter [a1, a2, a3] (ranked_query ?rk))" unfolding qi by simp
  have 4: "getattr a3 (primary_key_name ?p) = Inr (PInt 3)" by (simp add: ex_defs)
  have u: "unicode (PInt 3) = Inr ''3''" by (simp add: dec_ints)
  have 5: "?rk ''3'' = None" by simp
  have 6: "\<forall>r\<in>set (Query_iter [a1, a2, a3] (ranked_query ?rk)).
             \<exists>v k. getattr r (primary_key_name ?p) = Inr v \<and> unicode v = Inr k"
    unfolding qi by (simp add: ex_defs)
  show ?thesis
    using QueryProxy_iter_missing_key [OF 1 2 3 4 u 5] 3 4 u 5 6 by auto
qed

section \<open>Properties of the text search\<close>

lemma collect_results_Inr:
  "map (\<lambda>h. hit_get h pkn) rs = map Inr ks \<Longrightarrow>
   \<exists>R'. collect_results pkn n rs S R = Inr (S \<union> set ks, R') \<and>
     dom R' = dom R \<union> set ks \<and>
     (\<forall>i<length ks. ks ! i \<notin> set (drop (Suc i) ks) \<longrightarrow> R' (ks ! i) = Some (n + i)) \<and>
     (\<forall>k. k \<notin> set ks \<longrightarrow> R' k = R k)"
proof (induction rs arbitrary: ks n S R)
  case Nil
  then show ?case by simp
next
  case (Cons h rs)
  then obtain k ks' where ks: "ks = k # ks'" and hk: "hit_get h pkn = Inr k"
    and rest: "map (\<lambda>h. hit_get h pkn) rs = map Inr ks'"
    by (cases ks) auto
  from Cons.IH [OF rest, of "Suc n" "insert k S" "R(k \<mapsto> n)"]
  obtain R' where R': "collect_results pkn (Suc n) rs (insert k S) (R(k \<mapsto> n)) = Inr (insert k S \<union> set ks', R')"
    and d: "dom R' = dom (R(k \<mapsto> n)) \<union> set ks'"
    and pos: "\<forall>i<length ks'. ks' ! i \<notin> set (drop (Suc i) ks') \<longrightarrow> R' (ks' ! i) = Some (Suc n + i)"
    and unch: "\<forall>k'. k' \<notin> set ks' \<longrightarrow> R' k' = (R(k \<mapsto> n)) k'"
    by blast
  have 1: "collect_results pkn n (h # rs) S R = Inr (S \<union> set ks, R')"
    using R' hk ks by simp
  have 2: "dom R' = dom R \<union> set ks" using d ks by auto
  have 3: "\<forall>i<length ks. ks ! i \<notin> set (drop (Suc i) ks) \<longrightarrow> R' (ks ! i) = Some (n + i)"
  proof (intro allI impI)
    fix i assume i: "i < length ks" and last: "ks ! i \<notin> set (drop (Suc i) ks)"
    show "R' (ks ! i) = Some (n + i)"
    proof (cases i)
      case 0
      then have "k \<notin> set ks'" using last ks by simp
      then show ?thesis using unch 0 ks by simp
    next
      case (Suc j)
      then show ?thesis using pos i last ks by simp
    qed
  qed
  have 4: "\<forall>k'. k' \<notin> set ks \<longrightarrow> R' k' = R k'" using unch ks by auto
  show ?case using 1 2 3 4 by blast
qed

lemma coerce_Inr:
  "unicode query = Inr q \<Longrightarrow>
   (if \<not> is_unicode query
    then (case unicode query of Inl e \<Rightarrow> Inl e | Inr s \<Rightarrow> Inr (PUnicode s))
    else Inr query) = Inr (PUnicode q)"
  by (cases query) auto

lemma coerce_Inl:
  "unicode query = Inl e \<Longrightarrow>
   (if \<not> is_unicode query
    then (case unicode query of Inl e \<Rightarrow> Inl e | Inr s \<Rightarrow> Inr (PUnicode s))
    else Inr query) = Inl e"
  by (cases query) auto

lemma whoosh_search_Some:
  "proxy self = Some p \<Longrightarrow> unicode query = Inr q \<Longrightarrow>
   whoosh_search eng cq self query limit flds or_op =
     (if Searcher_call eng (whoosh_searcher p) (PUnicode q) limit flds or_op = []
      then Inr (EmptyQuery cq (model p))
      else (case collect_results (primary_key_name p) 0
                   (Searcher_call eng (whoosh_searcher p) (PUnicode q) limit flds or_op)
                   {} Map.empty of
              Inl e \<Rightarrow> Inl e
            | Inr (result_set, result_ranks) \<Rightarrow>
                Inr (filter_query self (In_set (primary_key_name p) result_set)
                       \<lparr>proxy := Some (p\<lparr>whoosh_rank := Some result_ranks\<rparr>)\<rparr>)))"
  by (simp add: whoosh_search_def Let_def coerce_Inr del: unicode.simps
        split: sum.splits prod.splits)

lemma whoosh_search_raises:
  "proxy self = Some p \<Longrightarrow> unicode query = Inl e \<Longrightarrow>
   whoosh_search eng cq self query limit flds or_op = Inl e"
  by (simp add: whoosh_search_def coerce_Inl del: unicode.simps)

text \<open>
  Claim C4. When the Searcher returns a non-empty hit list whose hits expose the keys
  \<open>pks\<close>, \<^verbatim>\<open>whoosh_search\<close> returns the original query with one more criterion, the
  primary key being in the set of hit keys, so that it selects the rows of the original
  query whose key is a hit key; its rank map is defined on the hit keys and gives a key
  its 0-based position in the hit list (its last position, should the key occur twice;
  the identifier field being unique, a key occurs once).
\<close>

theorem whoosh_search_hits:
  assumes "proxy self = Some p"
    and "unicode query = Inr q"
    and "Searcher_call eng (whoosh_searcher p) (PUnicode q) limit flds or_op = results"
    and "results \<noteq> []"
    and "map (\<lambda>h. hit_get h (primary_key_name p)) results = map Inr pks"
  shows "\<exists>f rk. whoosh_search eng cq self query limit flds or_op = Inr f \<and>
      criteria f = criteria self @ [In_set (primary_key_name p) (set pks)] \<and>
      proxy f = Some (p\<lparr>whoosh_rank := Some rk\<rparr>) \<and>
      dom rk = set pks \<and>
      (\<forall>i<length pks. pks ! i \<notin> set (drop (Suc i) pks) \<longrightarrow> rk (pks ! i) = Some i) \<and>
      (\<forall>db. Query_iter db f =
         filter (holds (In_set (primary_key_name p) (set pks))) (Query_iter db self))"
proof -
  obtain rk where c: "collect_results (primary_key_name p) 0 results {} Map.empty = Inr (set pks, rk)"
    and d: "dom rk = set pks"
    and pos: "\<forall>i<length pks. pks ! i \<notin> set (drop (Suc i) pks) \<longrightarrow> rk (pks ! i) = Some i"
    using collect_results_Inr [OF assms(5), of 0 "{}" Map.empty] by auto
  let ?f = "filter_query self (In_set (primary_key_name p) (set pks))
              \<lparr>proxy := Some (p\<lparr>whoosh_rank := Some rk\<rparr>)\<rparr>"
  have r: "whoosh_search eng cq self query limit flds or_op = Inr ?f"
    using assms(3,4) c by (simp add: whoosh_search_Some [OF assms(1,2)])
  have q: "\<forall>db. Query_iter db ?f =
         filter (holds (In_set (primary_key_name p) (set pks))) (Query_iter db self)"
    by (auto simp: Query_iter_def filter_query_def intro: filter_cong)
  show ?thesis using r d pos q by (auto simp: filter_query_def)
qed

lemma inner_Nil: "inner [] = []"
  by (simp add: inner.simps)

text \<open>
  Claim C5. When the Searcher returns no hit, \<^verbatim>\<open>whoosh_search\<close> raises nothing and
  returns \<^verbatim>\<open>_EmptyQuery\<close>, whose criterion \<^verbatim>\<open>null\<close> no row satisfies: on every table
  the relational iteration and the proxy's iteration of it yield no row.
\<close>

theorem whoosh_search_no_hits:
  assumes "proxy self = Some p"
    and "unicode query = Inr q"
    and "Searcher_call eng (whoosh_searcher p) (PUnicode q) limit flds or_op = []"
  shows "whoosh_search eng cq self query limit flds or_op
           = Inr (EmptyQuery cq (model p)) \<and>
         Query_iter db (EmptyQuery cq (model p)) = [] \<and>
         QueryProxy_iter db (EmptyQuery cq (model p)) = Inr []"
proof -
  have 1: "whoosh_search eng cq self query limit flds or_op
           = Inr (EmptyQuery cq (model p))"
    using assms(3) by (simp add: whoosh_search_Some [OF assms(1,2)])
  have 2: "Query_iter db (EmptyQuery cq (model p)) = []"
    by (simp add: Query_iter_def EmptyQuery_def filter_query_def)
  have 3: "QueryProxy_iter db (EmptyQuery cq (model p)) = Inr []"
    by (simp add: QueryProxy_iter_def 2 inner_Nil split: option.splits)
  show ?thesis using 1 2 3 by simp
qed

text \<open>
  Claim C10, as amended. Let \<^verbatim>\<open>unicode(query)\<close> succeed with the string \<open>q\<close>. Then the
  search with \<open>query\<close> is the search with the unicode object of \<open>q\<close>, and it is what the
  method builds from the answer of the Searcher called with that unicode object: the
  empty query when there is no hit, else the query restricted to the hit keys, with their
  ranks. When \<^verbatim>\<open>unicode(query)\<close> raises, the search raises that error.
\<close>

theorem whoosh_search_coerces_query:
  "(\<forall>q. unicode query = Inr q \<longrightarrow>
      whoosh_search eng cq self query limit flds or_op
        = whoosh_search eng cq self (PUnicode q) limit flds or_op \<and>
      (\<forall>p. proxy self = Some p \<longrightarrow>
         whoosh_search eng cq self query limit flds or_op =
           (if Searcher_call eng (whoosh_searcher p) (PUnicode q) limit flds or_op = []
            then Inr (EmptyQuery cq (model p))
            else (case collect_results (primary_key_name p) 0
                         (Searcher_call eng (whoosh_searcher p) (PUnicode q) limit flds or_op)
                         {} Map.empty of
                    Inl e \<Rightarrow> Inl e
                  | Inr (result_set, result_ranks) \<Rightarrow>
                      Inr (filter_query self (In_set (primary_key_name p) result_set)
                             \<lparr>proxy := Some (p\<lparr>whoosh_rank := Some result_ranks\<rparr>)\<rparr>))))) \<and>
   (\<forall>e p. unicode query = Inl e \<and> proxy self = Some p
      \<longrightarrow> whoosh_search eng cq self query limit flds or_op = Inl e)"
proof (intro conjI allI impI)
  fix q assume q: "unicode query = Inr q"
  have u: "unicode (PUnicode q) = Inr q" by simp
  show "whoosh_search eng cq self query limit flds or_op
     = whoosh_search eng cq self (PUnicode q) limit flds or_op"
  proof (cases "proxy self")
    case None
    then show ?thesis by (simp add: whoosh_search_def)
  next
    case (Some p)
    show ?thesis
      unfolding whoosh_search_Some [OF Some q] whoosh_search_Some [OF Some u] by (rule refl)
  qed
next
  fix q p assume "unicode query = Inr q" and "proxy self = Some p"
  then show "whoosh_search eng cq self query limit flds or_op =
           (if Searcher_call eng (whoosh_searcher p) (PUnicode q) limit flds or_op = []
            then Inr (EmptyQuery cq (model p))
            else (case collect_results (primary_key_name p) 0
                         (Searcher_call eng (whoosh_searcher p) (PUnicode q) limit flds or_op)
                         {} Map.empty of
                    Inl e \<Rightarrow> Inl e
                  | Inr (result_set, result_ranks) \<Rightarrow>
                      Inr (filter_query self (In_set (primary_key_name p) result_set)
                             \<lparr>proxy := Some (p\<lparr>whoosh_rank := Some result_ranks\<rparr>)\<rparr>)))"
    by (rule whoosh_search_Some [rotated])
next
  fix e p assume "unicode query = Inl e \<and> proxy self = Some p"
  then show "whoosh_search eng cq self query limit flds or_op = Inl e"
    by (simp add: whoosh_search_raises del: unicode.simps)
qed

text \<open>
  Claim C10 as stated fails for a byte string with a byte above 127: the search does not
  hand a unicode string to the Searcher, it raises \<^verbatim>\<open>UnicodeDecodeError\<close>.
\<close>

theorem whoosh_search_bytes_counterexample:
  "whoosh_search eng_ex class_query_ex article_query (PStr cafe_bytes) None None False
     = Inl UnicodeDecodeError"
  by (simp add: whoosh_search_def article_query_def cafe_bytes_def)

lemma class_query_ex_proxy:
  "proxy article_query = Some \<lparr>primary_key_name = Some ''id'',
     whoosh_searcher = article_searcher, model = a1, whoosh_rank = None\<rparr>"
  by (simp add: article_query_def)

lemma article_hits:
  "Searcher_call eng_ex article_searcher (PUnicode ''fox'') None None False
     = [[''id'' \<mapsto> ''2''], [''id'' \<mapsto> ''1'']]"
  "Searcher_call eng_ex article_searcher (PUnicode ''2'') None None False
     = [[''id'' \<mapsto> ''2''], [''id'' \<mapsto> ''1'']]"
  "Searcher_call eng_ex article_searcher (PUnicode ''zebra'') None None False = []"
  by (simp_all add: Searcher_call_def eng_ex_def)

theorem whoosh_search_hits_witness:
  "unicode (PUnicode ''fox'') = Inr ''fox'' \<and>
   Searcher_call eng_ex article_searcher (PUnicode ''fox'') None None False \<noteq> [] \<and>
   (\<exists>f rk. whoosh_search eng_ex class_query_ex article_query (PUnicode ''fox'') None None False
        = Inr f \<and>
      criteria f = [In_set (Some ''id'') {''2'', ''1''}] \<and>
      proxy f = Some \<lparr>primary_key_name = Some ''id'', whoosh_searcher = article_searcher,
                        model = a1, whoosh_rank = Some rk\<rparr> \<and>
      dom rk = {''2'', ''1''} \<and> rk ''2'' = Some 0 \<and> rk ''1'' = Some 1)"
proof -
  let ?p = "\<lparr>primary_key_name = Some ''id'', whoosh_searcher = article_searcher,
             model = a1, whoosh_rank = None\<rparr>"
  let ?results = "[[''id'' \<mapsto> ''2''], [''id'' \<mapsto> ''1'']] :: hit list"
  have u: "unicode (PUnicode ''fox'') = Inr ''fox''" by simp
  have 2: "Searcher_call eng_ex (whoosh_searcher ?p) (PUnicode ''fox'') None None False
             = ?results"
    by (simp add: article_hits)
  have 3: "?results \<noteq> []" by simp
  have 4: "map (\<lambda>h. hit_get h (primary_key_name ?p)) ?results = map Inr [''2'', ''1'']"
    by (simp add: hit_get_def)
  obtain f rk where f:
    "whoosh_search eng_ex class_query_ex article_query (PUnicode ''fox'') None None False = Inr f"
    "criteria f = criteria article_query @ [In_set (primary_key_name ?p) (set [''2'', ''1''])]"
    "proxy f = Some (?p\<lparr>whoosh_rank := Some rk\<rparr>)"
    "dom rk = set [''2'', ''1'']"
    "\<forall>i<length [''2'', ''1'']. [''2'', ''1''] ! i \<notin> set (drop (Suc i) [''2'', ''1''])
       \<longrightarrow> rk ([''2'', ''1''] ! i) = Some i"
    using whoosh_search_hits [OF class_query_ex_proxy u 2 3 4, of class_query_ex] by blast
  have r0: "rk ''2'' = Some 0" using f(5) [rule_format, of 0] by simp
  have r1: "rk ''1'' = Some 1" using f(5) [rule_format, of 1] by simp
  show ?thesis using f(1,2,3,4) r0 r1 by (simp add: article_query_def article_hits)
qed

theorem whoosh_search_no_hits_witness:
  "unicode (PUnicode ''zebra'') = Inr ''zebra'' \<and>
   Searcher_call eng_ex article_searcher (PUnicode ''zebra'') None None False = [] \<and>
   whoosh_search eng_ex class_query_ex article_query (PUnicode ''zebra'') None None False
     = Inr (EmptyQuery class_query_ex a1) \<and>
   Query_iter [a1, a2, a3] (EmptyQuery class_query_ex a1) = [] \<and>
   QueryProxy_iter [a1, a2, a3] (EmptyQuery class_query_ex a1) = Inr []"
proof -
  have u: "unicode (PUnicode ''zebra'') = Inr ''zebra''" by simp
  have 2: "Searcher_call eng_ex
      (whoosh_searcher \<lparr>primary_key_name = Some ''id'', whoosh_searcher = article_searcher,
         model = a1, whoosh_rank = None\<rparr>)
      (PUnicode ''zebra'') None None False = []"
    by (simp add: article_hits)
  show ?thesis
    using whoosh_search_no_hits [OF class_query_ex_proxy u 2, of class_query_ex "[a1, a2, a3]"]
    by (simp add: article_hits)
qed

theorem whoosh_search_coerces_query_witness:
  "unicode (PInt 2) = Inr ''2'' \<and>
   whoosh_search eng_ex class_query_ex article_query (PInt 2) None None False
     = whoosh_search eng_ex class_query_ex article_query (PUnicode ''2'') None None False \<and>
   whoosh_search eng_ex class_query_ex article_query (PInt 2) None None False
     = Inr \<lparr>criteria = [In_set (Some ''id'') {''1'', ''2''}],
            proxy = Some \<lparr>primary_key_name = Some ''id'', whoosh_searcher = article_searcher,
                           model = a1, whoosh_rank = Some [''2'' \<mapsto> 0, ''1'' \<mapsto> 1]\<rparr>\<rparr> \<and>
   unicode (PStr cafe_bytes) = Inl UnicodeDecodeError \<and>
   whoosh_search eng_ex class_query_ex article_query (PStr cafe_bytes) None None False
     = Inl UnicodeDecodeError"
proof -
  let ?p = "\<lparr>primary_key_name = Some ''id'', whoosh_searcher = article_searcher,
             model = a1, whoosh_rank = None\<rparr>"
  have u: "unicode (PInt 2) = Inr ''2''" by (simp add: dec_int_2)
  have b: "unicode (PStr cafe_bytes) = Inl UnicodeDecodeError" by (simp add: cafe_bytes_def)
  note t = whoosh_search_coerces_query
      [of "PInt 2" eng_ex class_query_ex article_query None None False]
  note t' = whoosh_search_coerces_query
      [of "PStr cafe_bytes" eng_ex class_query_ex article_query None None False]
  have 1: "whoosh_search eng_ex class_query_ex article_query (PInt 2) None None False
     = whoosh_search eng_ex class_query_ex article_query (PUnicode ''2'') None None False"
    using t u by blast
  have 2: "whoosh_search eng_ex class_query_ex article_query (PInt 2) None None False =
           (if Searcher_call eng_ex (whoosh_searcher ?p) (PUnicode ''2'') None None False = []
            then Inr (EmptyQuery class_query_ex (model ?p))
            else (case collect_results (primary_key_name ?p) 0
                         (Searcher_call eng_ex (whoosh_searcher ?p) (PUnicode ''2'') None None False)
                         {} Map.empty of
                    Inl e \<Rightarrow> Inl e
                  | Inr (result_set, result_ranks) \<Rightarrow>
                      Inr (filter_query article_query (In_set (primary_key_name ?p) result_set)
                             \<lparr>proxy := Some (?p\<lparr>whoosh_rank := Some result_ranks\<rparr>)\<rparr>)))"
    using t u class_query_ex_proxy by blast
  have 3: "whoosh_search eng_ex class_query_ex article_query (PInt 2) None None False
     = Inr \<lparr>criteria = [In_set (Some ''id'') {''1'', ''2''}],
            proxy = Some \<lparr>primary_key_name = Some ''id'', whoosh_searcher = article_searcher,
                           model = a1, whoosh_rank = Some [''2'' \<mapsto> 0, ''1'' \<mapsto> 1]\<rparr>\<rparr>"
    unfolding 2
    by (simp add: article_hits hit_get_def filter_query_def article_query_def)
  have 4: "whoosh_search eng_ex class_query_ex article_query (PStr cafe_bytes) None None False
     = Inl UnicodeDecodeError"
    using t' b class_query_ex_proxy by blast
  show ?thesis using u 1 3 b 4 by blast
qed

section \<open>Properties of the schema derivation\<close>





section \<open>Properties of the index registry\<close>

lemma world_same: "whoosh_indexes app = Some d \<Longrightarrow> app\<lparr>whoosh_indexes := Some d\<rparr> = app"
  by (cases app) simp

lemma whoosh_index_cached:
  "whoosh_indexes app = Some d \<Longrightarrow> d (cname (cls m)) = Some indx \<Longrightarrow>
   whoosh_index app m = Inr (indx, app)"
  by (simp add: whoosh_index_def Let_def world_same)

lemma whoosh_index_first:
  assumes "\<forall>d. whoosh_indexes app = Some d \<longrightarrow> d (cname (cls m)) = None"
    and "get_whoosh_schema_and_primary m = Inr (schema, primary)"
  defines "cn \<equiv> cname (cls m)"
  defines "wi \<equiv> path_join (whoosh_base app) cn"
  defines "indx \<equiv> \<lparr>idx_dir = wi,
     idx_schema = (case fs app wi of Some st \<Rightarrow> st_schema st | None \<Rightarrow> schema)\<rparr>"
  shows "whoosh_index app m = Inr (indx,
     app\<lparr>whoosh_indexes := Some ((case whoosh_indexes app of None \<Rightarrow> Map.empty | Some d \<Rightarrow> d)
              (cn \<mapsto> indx)),
         WHOOSH_BASE := Some (whoosh_base app),
         fs := (case fs app wi of Some st \<Rightarrow> fs app
                | None \<Rightarrow> (fs app)(wi \<mapsto> \<lparr>st_schema = schema, st_docs = []\<rparr>)),
         class_query := (class_query app)
            (cn := QueryProxy_init (class_query app cn) primary (Searcher_init primary indx) m),
         pure_whoosh := (pure_whoosh app)(cn \<mapsto> Searcher_init primary indx)\<rparr>)"
proof -
  have n: "(case whoosh_indexes app of None \<Rightarrow> Map.empty | Some d \<Rightarrow> d) (cname (cls m)) = None"
    using assms(1) by (cases "whoosh_indexes app") auto
  show ?thesis
    unfolding whoosh_index_def Let_def n cn_def wi_def indx_def
    using assms(2)
    by (cases "fs app (path_join (whoosh_base app) (cname (cls m)))")
       (simp_all add: whoosh_base_def)
qed

text \<open>
  Claim C9, as amended. The registry of an application object is a dictionary from class
  names to index objects, so a name has at most one there. A call for a class whose name
  is registered returns the registered index and changes nothing. A first call for a
  class derives the schema, opens the index in the directory of the class under the base
  path if there is one and otherwise creates an empty index with the derived schema
  there, registers the index, and installs on the class the Searcher for the index and,
  as the class's query, the class's former query with the fields of the proxy set; after
  it, every call on that application for a class of that name returns the same index and
  changes nothing.
\<close>

theorem whoosh_index_registry:
  "(\<forall>d indx. whoosh_indexes app = Some d \<and> d (cname (cls m)) = Some indx
       \<longrightarrow> whoosh_index app m = Inr (indx, app)) \<and>
   (\<forall>schema primary.
       (\<forall>d. whoosh_indexes app = Some d \<longrightarrow> d (cname (cls m)) = None) \<and>
       get_whoosh_schema_and_primary m = Inr (schema, primary)
     \<longrightarrow> (\<exists>indx app'. whoosh_index app m = Inr (indx, app') \<and>
           idx_dir indx = path_join (whoosh_base app) (cname (cls m)) \<and>
           (case fs app (idx_dir indx) of
              Some st \<Rightarrow> idx_schema indx = st_schema st \<and> fs app' = fs app
            | None \<Rightarrow> idx_schema indx = schema \<and>
                fs app' = (fs app)(idx_dir indx \<mapsto> \<lparr>st_schema = schema, st_docs = []\<rparr>)) \<and>
           whoosh_indexes app' =
             Some ((case whoosh_indexes app of None \<Rightarrow> Map.empty | Some d \<Rightarrow> d)
                     (cname (cls m) \<mapsto> indx)) \<and>
           WHOOSH_BASE app' = Some (whoosh_base app) \<and>
           pure_whoosh app' = (pure_whoosh app)(cname (cls m) \<mapsto>
              \<lparr>s_primary_key_name = primary, s_index = indx,
               all_fields = dom (idx_schema indx) - set_option primary\<rparr>) \<and>
           class_query app' = (class_query app)(cname (cls m) :=
              \<lparr>criteria = criteria (class_query app (cname (cls m))),
               proxy = Some \<lparr>primary_key_name = primary,
                  whoosh_searcher = \<lparr>s_primary_key_name = primary, s_index = indx,
                     all_fields = dom (idx_schema indx) - set_option primary\<rparr>,
                  model = m, whoosh_rank = None\<rparr>\<rparr>) \<and>
           (\<forall>m'. cname (cls m') = cname (cls m) \<longrightarrow> whoosh_index app' m' = Inr (indx, app'))))"
proof (intro conjI allI impI)
  fix d indx
  assume "whoosh_indexes app = Some d \<and> d (cname (cls m)) = Some indx"
  then show "whoosh_index app m = Inr (indx, app)"
    by (simp add: whoosh_index_cached)
next
  fix schema primary
  assume a: "(\<forall>d. whoosh_indexes app = Some d \<longrightarrow> d (cname (cls m)) = None) \<and>
       get_whoosh_schema_and_primary m = Inr (schema, primary)"
  define cn where "cn = cname (cls m)"
  define wi where "wi = path_join (whoosh_base app) cn"
  define indx where "indx = \<lparr>idx_dir = wi,
     idx_schema = (case fs app wi of Some st \<Rightarrow> st_schema st | None \<Rightarrow> schema)\<rparr>"
  define app' where "app' = app\<lparr>whoosh_indexes :=
           Some ((case whoosh_indexes app of None \<Rightarrow> Map.empty | Some d \<Rightarrow> d)(cn \<mapsto> indx)),
         WHOOSH_BASE := Some (whoosh_base app),
         fs := (case fs app wi of Some st \<Rightarrow> fs app
                | None \<Rightarrow> (fs app)(wi \<mapsto> \<lparr>st_schema = schema, st_docs = []\<rparr>)),
         class_query := (class_query app)
            (cn := QueryProxy_init (class_query app cn) primary (Searcher_init primary indx) m),
         pure_whoosh := (pure_whoosh app)(cn \<mapsto> Searcher_init primary indx)\<rparr>"
  have r: "whoosh_index app m = Inr (indx, app')"
    unfolding app'_def indx_def wi_def cn_def
    by (rule whoosh_index_first) (use a in simp_all)
  have 1: "idx_dir indx = path_join (whoosh_base app) (cname (cls m))"
    by (simp add: indx_def wi_def cn_def)
  have 2: "(case fs app (idx_dir indx) of
              Some st \<Rightarrow> idx_schema indx = st_schema st \<and> fs app' = fs app
            | None \<Rightarrow> idx_schema indx = schema \<and>
                fs app' = (fs app)(idx_dir indx \<mapsto> \<lparr>st_schema = schema, st_docs = []\<rparr>))"
    by (simp add: indx_def app'_def split: option.splits)
  have 3: "whoosh_indexes app' =
             Some ((case whoosh_indexes app of None \<Rightarrow> Map.empty | Some d \<Rightarrow> d)
                     (cname (cls m) \<mapsto> indx))"
    by (simp add: app'_def cn_def)
  have b: "WHOOSH_BASE app' = Some (whoosh_base app)"
    by (simp add: app'_def)
  have 4: "pure_whoosh app' = (pure_whoosh app)(cname (cls m) \<mapsto>
              \<lparr>s_primary_key_name = primary, s_index = indx,
               all_fields = dom (idx_schema indx) - set_option primary\<rparr>)"
    by (simp add: app'_def cn_def Searcher_init_def)
  have 5: "class_query app' = (class_query app)(cname (cls m) :=
              \<lparr>criteria = criteria (class_query app (cname (cls m))),
               proxy = Some \<lparr>primary_key_name = primary,
                  whoosh_searcher = \<lparr>s_primary_key_name = primary, s_index = indx,
                     all_fields = dom (idx_schema indx) - set_option primary\<rparr>,
                  model = m, whoosh_rank = None\<rparr>\<rparr>)"
    by (simp add: app'_def cn_def Searcher_init_def QueryProxy_init_def)
  have 6: "\<forall>m'. cname (cls m') = cname (cls m) \<longrightarrow> whoosh_index app' m' = Inr (indx, app')"
    using 3 by (simp add: whoosh_index_cached)
  show "\<exists>indx app'. whoosh_index app m = Inr (indx, app') \<and>
           idx_dir indx = path_join (whoosh_base app) (cname (cls m)) \<and>
           (case fs app (idx_dir indx) of
              Some st \<Rightarrow> idx_schema indx = st_schema st \<and> fs app' = fs app
            | None \<Rightarrow> idx_schema indx = schema \<and>
                fs app' = (fs app)(idx_dir indx \<mapsto> \<lparr>st_schema = schema, st_docs = []\<rparr>)) \<and>
           whoosh_indexes app' =
             Some ((case whoosh_indexes app of None \<Rightarrow> Map.empty | Some d \<Rightarrow> d)
                     (cname (cls m) \<mapsto> indx)) \<and>
           WHOOSH_BASE app' = Some (whoosh_base app) \<and>
           pure_whoosh app' = (pure_whoosh app)(cname (cls m) \<mapsto>
              \<lparr>s_primary_key_name = primary, s_index = indx,
               all_fields = dom (idx_schema indx) - set_option primary\<rparr>) \<and>
           class_query app' = (class_query app)(cname (cls m) :=
              \<lparr>criteria = criteria (class_query app (cname (cls m))),
               proxy = Some \<lparr>primary_key_name = primary,
                  whoosh_searcher = \<lparr>s_primary_key_name = primary, s_index = indx,
                     all_fields = dom (idx_schema indx) - set_option primary\<rparr>,
                  model = m, whoosh_rank = None\<rparr>\<rparr>) \<and>
           (\<forall>m'. cname (cls m') = cname (cls m) \<longrightarrow> whoosh_index app' m' = Inr (indx, app'))"
    using r 1 2 3 b 4 5 6 by blast
qed

lemma article_schema_and_primary:
  "get_whoosh_schema_and_primary (article oid i t b) = Inr (article_schema, Some ''id'')"
  by (simp add: get_whoosh_schema_and_primary_def article_def Article_def article_schema_def)

lemma path_ex: "path_join ''whoosh_index'' ''Article'' = ''whoosh_index/Article''"
  by (simp add: path_join_def)

lemma article_fields:
  "dom (idx_schema article_index) - set_option (Some ''id'') = {''title'', ''body''}"
  "dom (idx_schema article_index) - {''id''} = {''title'', ''body''}"
  by (auto simp: article_index_def article_schema_def)

lemma article_names: "cname (cls a1) = ''Article''" "cname (cls a2) = ''Article''"
  by (simp_all add: a1_def a2_def article_def Article_def)

lemma whoosh_index_app0:
  "whoosh_index app0 a1 = Inr (article_index, app_first)"
proof -
  have n: "\<forall>d. whoosh_indexes app0 = Some d \<longrightarrow> d (cname (cls a1)) = None"
    by (simp add: app0_def)
  have g: "get_whoosh_schema_and_primary a1 = Inr (article_schema, Some ''id'')"
    by (simp add: a1_def article_schema_and_primary)
  have b: "whoosh_base app0 = ''whoosh_index''" by (simp add: whoosh_base_def app0_def)
  have f0: "fs app0 ''whoosh_index/Article'' = None" by (simp add: app0_def)
  show ?thesis
    unfolding whoosh_index_first [OF n g] article_names b path_ex f0
    by (simp add: article_index_def [symmetric] Searcher_init_def QueryProxy_init_def
          article_fields article_searcher_def [symmetric])
       (simp add: app0_def app_first_def plain_query_def article_query_def)
qed

lemma whoosh_index_second_app:
  "whoosh_index (another_app None app_first) a2 = Inr (article_index, app_second)"
proof -
  have n: "\<forall>d. whoosh_indexes (another_app None app_first) = Some d
             \<longrightarrow> d (cname (cls a2)) = None"
    by (simp add: another_app_def)
  have g: "get_whoosh_schema_and_primary a2 = Inr (article_schema, Some ''id'')"
    by (simp add: a2_def article_schema_and_primary)
  have b: "whoosh_base (another_app None app_first) = ''whoosh_index''"
    by (simp add: whoosh_base_def another_app_def)
  have f0: "fs (another_app None app_first) ''whoosh_index/Article''
              = Some \<lparr>st_schema = article_schema, st_docs = []\<rparr>"
    by (simp add: another_app_def app_first_def)
  show ?thesis
    unfolding whoosh_index_first [OF n g] article_names b path_ex f0
    by (simp add: article_index_def [symmetric] Searcher_init_def QueryProxy_init_def
          article_fields article_searcher_def [symmetric])
       (simp add: another_app_def app_first_def app_second_def article_query_def)
qed

text \<open>
  Claim C9 as stated fails at ``per process'': the registry is an attribute of the
  application object. After the first call for \<^verbatim>\<open>Article\<close> on one application, the
  first call for \<^verbatim>\<open>Article\<close> on another application of the same process is not
  answered from a cache: it registers a handle again and installs the query proxy on the
  class again, now with the record of the second call as its model.
\<close>

theorem whoosh_index_per_process_counterexample:
  "whoosh_index app0 a1 = Inr (article_index, app_first) \<and>
   whoosh_index (another_app None app_first) a2 = Inr (article_index, app_second) \<and>
   app_second \<noteq> another_app None app_first \<and>
   whoosh_indexes (another_app None app_first) = None \<and>
   whoosh_indexes app_second = Some [''Article'' \<mapsto> article_index] \<and>
   proxy (class_query app_first ''Article'') =
     Some \<lparr>primary_key_name = Some ''id'', whoosh_searcher = article_searcher,
           model = a1, whoosh_rank = None\<rparr> \<and>
   proxy (class_query app_second ''Article'') =
     Some \<lparr>primary_key_name = Some ''id'', whoosh_searcher = article_searcher,
           model = a2, whoosh_rank = None\<rparr> \<and>
   a2 \<noteq> a1"
proof -
  have d: "a2 \<noteq> a1" by (simp add: a1_def a2_def article_def)
  have "whoosh_indexes app_second \<noteq> whoosh_indexes (another_app None app_first)"
    by (simp add: app_second_def another_app_def app_first_def)
  then have ne: "app_second \<noteq> another_app None app_first" by auto
  show ?thesis
    using whoosh_index_app0 whoosh_index_second_app d ne
    by (simp add: app_first_def app_second_def another_app_def article_query_def)
qed

theorem whoosh_index_registry_witness:
  "whoosh_index app_cached a1 = Inr (article_index, app_cached) \<and>
   whoosh_indexes app0 = None \<and>
   get_whoosh_schema_and_primary a1 = Inr (article_schema, Some ''id'') \<and>
   (\<exists>app'. whoosh_index app0 a1 = Inr (article_index, app') \<and>
      fs app' = [''whoosh_index/Article'' \<mapsto> \<lparr>st_schema = article_schema, st_docs = []\<rparr>] \<and>
      whoosh_indexes app' = Some [''Article'' \<mapsto> article_index] \<and>
      WHOOSH_BASE app' = Some ''whoosh_index'' \<and>
      pure_whoosh app' = [''Article'' \<mapsto> article_searcher] \<and>
      class_query app' ''Article'' =
        \<lparr>criteria = [],
         proxy = Some \<lparr>primary_key_name = Some ''id'', whoosh_searcher = article_searcher,
                        model = a1, whoosh_rank = None\<rparr>\<rparr> \<and>
      class_query app' ''Tag'' = plain_query \<and>
      whoosh_index app' a2 = Inr (article_index, app'))"
proof -
  have c: "whoosh_indexes app_cached = Some [''Article'' \<mapsto> article_index] \<and>
     [''Article'' \<mapsto> article_index] (cname (cls a1)) = Some article_index"
    by (simp add: app_cached_def a1_def article_def Article_def)
  have 1: "whoosh_index app_cached a1 = Inr (article_index, app_cached)"
    using whoosh_index_registry [of app_cached a1] c by blast
  have n: "\<forall>d. whoosh_indexes app0 = Some d \<longrightarrow> d (cname (cls a1)) = None"
    by (simp add: app0_def)
  have g: "get_whoosh_schema_and_primary a1 = Inr (article_schema, Some ''id'')"
    by (simp add: a1_def article_schema_and_primary)
  have b: "whoosh_base app0 = ''whoosh_index''" by (simp add: whoosh_base_def app0_def)
  obtain indx app' where r: "whoosh_index app0 a1 = Inr (indx, app')"
    "idx_dir indx = path_join (whoosh_base app0) (cname (cls a1))"
    "(case fs app0 (idx_dir indx) of
              Some st \<Rightarrow> idx_schema indx = st_schema st \<and> fs app' = fs app0
            | None \<Rightarrow> idx_schema indx = article_schema \<and>
                fs app' = (fs app0)(idx_dir indx \<mapsto> \<lparr>st_schema = article_schema, st_docs = []\<rparr>))"
    "whoosh_indexes app' =
             Some ((case whoosh_indexes app0 of None \<Rightarrow> Map.empty | Some d \<Rightarrow> d)
                     (cname (cls a1) \<mapsto> indx))"
    "WHOOSH_BASE app' = Some (whoosh_base app0)"
    "pure_whoosh app' = (pure_whoosh app0)(cname (cls a1) \<mapsto>
              \<lparr>s_primary_key_name = Some ''id'', s_index = indx,
               all_fields = dom (idx_schema indx) - set_option (Some ''id'')\<rparr>)"
    "class_query app' = (class_query app0)(cname (cls a1) :=
              \<lparr>criteria = criteria (class_query app0 (cname (cls a1))),
               proxy = Some \<lparr>primary_key_name = Some ''id'',
                  whoosh_searcher = \<lparr>s_primary_key_name = Some ''id'', s_index = indx,
                     all_fields = dom (idx_schema indx) - set_option (Some ''id'')\<rparr>,
                  model = a1, whoosh_rank = None\<rparr>\<rparr>)"
    "\<forall>m'. cname (cls m') = cname (cls a1) \<longrightarrow> whoosh_index app' m' = Inr (indx, app')"
    using whoosh_index_registry [of app0 a1] n g by blast
  have d: "idx_dir indx = ''whoosh_index/Article''"
    using r(2) by (simp add: b article_names path_ex)
  have f0: "fs app0 ''whoosh_index/Article'' = None" by (simp add: app0_def)
  have sc: "idx_schema indx = article_schema" using r(3) d f0 by simp
  have i: "indx = article_index" using d sc by (cases indx) (simp add: article_index_def)
  have s: "\<lparr>s_primary_key_name = Some ''id'', s_index = article_index,
             all_fields = dom (idx_schema article_index) - set_option (Some ''id'')\<rparr>
           = article_searcher"
    unfolding article_fields by (simp add: article_searcher_def)
  have f: "fs app' = [''whoosh_index/Article'' \<mapsto> \<lparr>st_schema = article_schema, st_docs = []\<rparr>]"
    using r(3) d f0 by (simp add: app0_def)
  have wi: "whoosh_indexes app' = Some [''Article'' \<mapsto> article_index]"
    using r(4) i article_names by (simp add: app0_def)
  have wb: "WHOOSH_BASE app' = Some ''whoosh_index''"
    using r(5) b by simp
  have pw: "pure_whoosh app' = [''Article'' \<mapsto> article_searcher]"
    using r(6) unfolding i s article_names by (simp add: app0_def)
  have cq: "class_query app' ''Article'' =
        \<lparr>criteria = [],
         proxy = Some \<lparr>primary_key_name = Some ''id'', whoosh_searcher = article_searcher,
                        model = a1, whoosh_rank = None\<rparr>\<rparr>"
    using r(7) unfolding i s article_names by (simp add: app0_def plain_query_def)
  have cq': "class_query app' ''Tag'' = plain_query"
    using r(7) unfolding i s article_names by (simp add: app0_def)
  have again: "whoosh_index app' a2 = Inr (article_index, app')"
    using r(8) article_names i by simp
  show ?thesis using 1 g r(1) i f wi wb pw cq cq' again by (simp add: app0_def)
qed

section \<open>Properties of the change collector\<close>

lemma map_of_setdefault_append:
  "map_of (setdefault_append B k x) n =
     (if n = k then Some ((case map_of B k of None \<Rightarrow> [] | Some xs \<Rightarrow> xs) @ [x])
      else map_of B n)"
  by (induction B k x rule: setdefault_append.induct) auto

lemma keys_setdefault_append:
  "map fst (setdefault_append B k x) =
     (if k \<in> fst ` set B then map fst B else map fst B @ [k])"
  by (induction B k x rule: setdefault_append.induct) auto

lemma distinct_setdefault_append:
  "distinct (map fst B) \<Longrightarrow> distinct (map fst (setdefault_append B k x))"
  by (simp add: keys_setdefault_append)

lemma collect_changes_acc:
  "map_of (collect_changes changes B) n =
     (case map_of B n of
        None \<Rightarrow> (if changes_of_type n changes = [] then None
                 else Some (changes_of_type n changes))
      | Some xs \<Rightarrow> Some (xs @ changes_of_type n changes))"
proof (induction changes arbitrary: B)
  case Nil
  then show ?case by (simp add: changes_of_type_def split: option.splits)
next
  case (Cons c changes)
  show ?case
  proof (cases "searchable (cls (fst c)) \<noteq> None")
    case False
    then have e: "changes_of_type n (c # changes) = changes_of_type n changes"
      by (simp add: changes_of_type_def)
    show ?thesis unfolding e using False Cons.IH [of B] by simp
  next
    case True
    let ?B = "setdefault_append B (cname (cls (fst c)))
                (snd c = ''update'' \<or> snd c = ''insert'', fst c)"
    have step: "collect_changes (c # changes) B = collect_changes changes ?B"
      using True by (simp add: Let_def)
    show ?thesis
    proof (cases "cname (cls (fst c)) = n")
      case False
      then have "map_of ?B n = map_of B n" by (simp add: map_of_setdefault_append)
      moreover have "changes_of_type n (c # changes) = changes_of_type n changes"
        using False by (simp add: changes_of_type_def)
      ultimately show ?thesis using Cons.IH [of ?B] step by (simp split: option.splits)
    next
      case eq: True
      have m: "map_of ?B n = Some ((case map_of B n of None \<Rightarrow> [] | Some xs \<Rightarrow> xs)
                 @ [(snd c = ''insert'' \<or> snd c = ''update'', fst c)])"
        using eq by (auto simp: map_of_setdefault_append)
      have t: "changes_of_type n (c # changes)
                 = (snd c = ''insert'' \<or> snd c = ''update'', fst c) # changes_of_type n changes"
        using eq True by (simp add: changes_of_type_def)
      show ?thesis using Cons.IH [of ?B] step m t by (simp split: option.splits)
    qed
  qed
qed

lemma collect_changes_distinct:
  "distinct (map fst B) \<Longrightarrow> distinct (map fst (collect_changes changes B))"
  by (induction changes arbitrary: B) (simp_all add: Let_def distinct_setdefault_append)

text \<open>
  Claim C7, as amended. The dictionary that the first loop of \<^verbatim>\<open>_after_flush\<close> builds has one entry
  for each class name that occurs among the changes of classes declaring searchable names;
  the entry is the list of those changes in their order in the commit, each as the pair of
  the flag (true exactly for insert and update) and the record. Changes of classes that
  declare no searchable names are in no entry.
\<close>

theorem collect_changes_by_type:
  "map_of (collect_changes changes []) n =
     (if changes_of_type n changes = [] then None else Some (changes_of_type n changes)) \<and>
   distinct (map fst (collect_changes changes []))"
  by (simp add: collect_changes_acc collect_changes_distinct)

lemma example_classes:
  "cls a1 = Article" "cls a2 = Article" "cls a3 = Article" "cls tag = Tag" "cls plain = Plain"
  "cname Article = ''Article''" "cname Tag = ''Tag''" "cname Plain = ''Plain''"
  "searchable Article = Some [''title'', ''body'']" "searchable Tag = Some [''slug'']"
  "searchable Plain = None"
  by (simp_all add: a1_def a2_def a3_def article_def tag_def plain_def Article_def Tag_def
        Plain_def)

theorem collect_changes_by_type_witness:
  "map_of (collect_changes [(a1, ''insert''), (tag, ''update''), (plain, ''insert''),
       (a2, ''delete''), (a1, ''update'')] []) ''Article''
     = Some [(True, a1), (False, a2), (True, a1)] \<and>
   map_of (collect_changes [(a1, ''insert''), (tag, ''update''), (plain, ''insert''),
       (a2, ''delete''), (a1, ''update'')] []) ''Plain'' = None"
proof -
  let ?cs = "[(a1, ''insert''), (tag, ''update''), (plain, ''insert''),
       (a2, ''delete''), (a1, ''update'')]"
  have 1: "changes_of_type ''Article'' ?cs = [(True, a1), (False, a2), (True, a1)]"
    by (simp add: changes_of_type_def example_classes)
  have 2: "changes_of_type ''Plain'' ?cs = []"
    by (simp add: changes_of_type_def example_classes)
  show ?thesis
    using collect_changes_by_type [of ?cs "''Article''"]
      collect_changes_by_type [of ?cs "''Plain''"]
    unfolding 1 2 by simp
qed

lemma article_texts:
  "getattr a1 (Some ''id'') = Inr (PInt 1)"
  "getattr a1 (Some ''title'') = Inr (PUnicode ''red fox'')"
  "getattr a1 (Some ''body'') = Inr (PUnicode ''jumps'')"
  "getattr a1b (Some ''id'') = Inr (PInt 1)"
  "getattr a1b (Some ''title'') = Inr (PUnicode ''green fox'')"
  "getattr a1b (Some ''body'') = Inr (PUnicode ''jumps'')"
  by (simp_all add: getattr_def a1_def a1b_def article_def)

lemma a1_document:
  "build_attrs ''Article'' a1 [''title'', ''body''] []
     = Inr [(''title'', ''red fox''), (''body'', ''jumps'')]"
  by (simp add: article_texts)

lemma a1b_document:
  "build_attrs ''Article'' a1b [''title'', ''body''] []
     = Inr [(''title'', ''green fox''), (''body'', ''jumps'')]"
  by (simp add: article_texts)

lemma first_writer:
  "index_writer app_first article_index
     = Inr \<lparr>wr_index = article_index, wr_docs = [], wr_added = []\<rparr>"
  "pure_whoosh app_first ''Article'' = Some article_searcher"
  "s_primary_key_name article_searcher = Some ''id''"
  by (simp_all add: index_writer_def app_first_def article_index_def article_searcher_def)

text \<open>
  Claim C7 as stated fails at its consequence that a later change to the same key
  determines the final state of the index: the writer's deletion reaches the documents
  committed before the writer was opened, not the one that the same writer has added.
  A commit that inserts a record and then deletes it leaves the record's document in the
  index.
\<close>

theorem later_change_counterexample:
  "after_flush insertion_order analyze_ex app0 [(a1, ''insert''), (a1, ''delete'')]
     = Inr (app_docs [doc1]) \<and>
   docs_for ''id'' ''1'' [doc1] = [doc1]"
proof -
  have c: "collect_changes [(a1, ''insert''), (a1, ''delete'')] []
             = [(''Article'', [(True, a1), (False, a1)])]"
    by (simp add: example_classes)
  have w: "write_values analyze_ex ''Article'' (Some ''id'') [''title'', ''body'']
             \<lparr>wr_index = article_index, wr_docs = [], wr_added = []\<rparr>
             [(True, a1), (False, a1)]
           = Inr \<lparr>wr_index = article_index, wr_docs = [],
                  wr_added = [[(''title'', ''red fox''), (''body'', ''jumps''), (''id'', ''1'')]]\<rparr>"
    by (simp add: a1_document article_texts dec_int_1 update_document_def delete_by_term_def
          unique_terms_def List.map_filter_simps article_index_def article_schema_def)
  have d: "docs_for ''id'' ''1'' [doc1] = [doc1]"
    by (simp add: docs_for_def matches_def doc1_def)
  have "after_flush insertion_order analyze_ex app0 [(a1, ''insert''), (a1, ''delete'')]
     = Inr (app_docs [doc1])"
    unfolding after_flush_def c insertion_order_def
    by (simp add: whoosh_index_app0 first_writer example_classes w writer_commit_def
          del: write_values.simps)
       (simp add: app_first_def article_index_def Let_def app_docs_def doc1_def)
  then show ?thesis using d by simp
qed

section \<open>Properties of the index writer\<close>

lemma text_of_getattr:
  "(text_of r k = Some u) = (\<exists>x. getattr r (Some k) = Inr x \<and> unicode x = Inr u)"
  by (auto simp: text_of_def getattr_def split: option.splits sum.splits simp del: unicode.simps)

lemma text_of_present:
  assumes "text_of r k \<noteq> None"
  obtains x u where "getattr r (Some k) = Inr x" and "unicode x = Inr u"
    and "text_of r k = Some u"
proof -
  obtain u where u: "text_of r k = Some u" using assms by auto
  then obtain x where "getattr r (Some k) = Inr x" "unicode x = Inr u"
    unfolding text_of_getattr by blast
  then show ?thesis using u that by blast
qed

lemma getattr_missing:
  "obj_attrs v key = None \<Longrightarrow> getattr v (Some key) = Inl (AttributeError key)"
  by (simp add: getattr_def)

lemma build_attrs_missing_at:
  "\<forall>k\<in>set kpre. text_of v k \<noteq> None \<Longrightarrow> obj_attrs v key = None \<Longrightarrow>
   build_attrs mname v (kpre @ key # kpost) acc
     = Inl (AttributeError (mname @ '' does not have __searchable__ field '' @ key))"
proof (induction kpre arbitrary: acc)
  case Nil
  then show ?case by (simp add: getattr_missing)
next
  case (Cons a kpre)
  have "text_of v a \<noteq> None" using Cons.prems(1) by simp
  then obtain x u where x: "getattr v (Some a) = Inr x" "unicode x = Inr u"
    by (rule text_of_present)
  have "\<forall>k\<in>set kpre. text_of v k \<noteq> None" using Cons.prems(1) by simp
  from Cons.IH [OF this Cons.prems(2)] show ?case using x by (simp del: unicode.simps)
qed

lemma build_attrs_missing:
  "key \<in> set keys \<Longrightarrow> obj_attrs v key = None \<Longrightarrow>
   \<exists>e. build_attrs mname v keys acc = Inl e"
proof (induction keys arbitrary: acc)
  case Nil
  then show ?case by simp
next
  case (Cons a keys)
  show ?case
  proof (cases "getattr v (Some a)")
    case (Inl e)
    then show ?thesis by (cases e) simp_all
  next
    case (Inr x)
    then have "a \<noteq> key" using Cons.prems(2) by (auto simp: getattr_def)
    then have k: "key \<in> set keys" using Cons.prems(1) by simp
    show ?thesis
    proof (cases "unicode x")
      case (Inl e)
      then show ?thesis using Inr by (simp del: unicode.simps)
    next
      case u: (Inr u)
      from Cons.IH [OF k Cons.prems(2), of "AList.update a u acc"]
      show ?thesis using Inr u by (simp del: unicode.simps)
    qed
  qed
qed

lemma build_attrs_ok:
  "\<forall>key\<in>set keys. text_of v key \<noteq> None \<Longrightarrow>
   \<exists>d. build_attrs mname v keys acc = Inr d \<and>
     map_of d = (\<lambda>k. if k \<in> set keys then text_of v k else map_of acc k) \<and>
     fst ` set d = fst ` set acc \<union> set keys"
proof (induction keys arbitrary: acc)
  case Nil
  then show ?case by simp
next
  case (Cons a keys)
  have "text_of v a \<noteq> None" using Cons.prems by simp
  then obtain x u where x: "getattr v (Some a) = Inr x" "unicode x = Inr u"
    and t: "text_of v a = Some u"
    by (rule text_of_present)
  have "\<forall>key\<in>set keys. text_of v key \<noteq> None" using Cons.prems by simp
  from Cons.IH [OF this, of "AList.update a u acc"]
  obtain d where d: "build_attrs mname v keys (AList.update a u acc) = Inr d"
    and m: "map_of d = (\<lambda>k. if k \<in> set keys then text_of v k
                       else map_of (AList.update a u acc) k)"
    and f: "fst ` set d = fst ` set (AList.update a u acc) \<union> set keys"
    by blast
  have 1: "build_attrs mname v (a # keys) acc = Inr d"
    using x d by (simp del: unicode.simps)
  have 2: "map_of d = (\<lambda>k. if k \<in> set (a # keys) then text_of v k else map_of acc k)"
    unfolding m using t by (auto simp: fun_eq_iff update_conv')
  have 3: "fst ` set d = fst ` set acc \<union> set (a # keys)"
    unfolding f by (auto simp: dom_update)
  show ?case using 1 2 3 by blast
qed

lemma update_document_ok:
  assumes "fst ` set d \<subseteq> dom (idx_schema (wr_index wr))"
  shows "update_document analyze wr d =
     Inr (wr\<lparr>wr_docs := map snd (filter (\<lambda>(i, old). i \<notin> set (List.map_filter
               (\<lambda>(n, v). first_index (\<lambda>old. has_term analyze (idx_schema (wr_index wr)) old n v)
                   (wr_docs wr))
               (unique_terms (idx_schema (wr_index wr)) d)))
             (enumerate 0 (wr_docs wr))),
             wr_added := wr_added wr @ [d]\<rparr>)"
proof -
  have "\<not> list_ex (\<lambda>(n, v). idx_schema (wr_index wr) n = None) d"
    using assms by (force simp: list_ex_iff)
  then show ?thesis by (simp add: update_document_def Let_def)
qed

lemma update_document_index:
  "update_document analyze wr d = Inr wr' \<Longrightarrow> wr_index wr' = wr_index wr"
  by (auto simp: update_document_def Let_def split: if_splits)

lemma delete_by_term_index: "wr_index (delete_by_term analyze wr f t) = wr_index wr"
  by (simp add: delete_by_term_def)

lemma write_values_step:
  "write_values analyze mname pf srch wr ((u, r) # rest) =
     (case write_values analyze mname pf srch wr [(u, r)] of
        Inl e \<Rightarrow> Inl e
      | Inr wr1 \<Rightarrow> write_values analyze mname pf srch wr1 rest)"
  by (simp split: sum.splits option.splits del: unicode.simps)

lemma write_values_append:
  "write_values analyze mname pf srch wr (xs @ ys) =
     (case write_values analyze mname pf srch wr xs of
        Inl e \<Rightarrow> Inl e
      | Inr wr' \<Rightarrow> write_values analyze mname pf srch wr' ys)"
proof (induction xs arbitrary: wr)
  case Nil
  then show ?case by simp
next
  case (Cons a xs)
  obtain u r where a: "a = (u, r)" by (cases a)
  have l: "write_values analyze mname pf srch wr ((u, r) # (xs @ ys)) =
     (case write_values analyze mname pf srch wr [(u, r)] of
        Inl e \<Rightarrow> Inl e
      | Inr wr1 \<Rightarrow> write_values analyze mname pf srch wr1 (xs @ ys))"
    by (rule write_values_step)
  have r: "write_values analyze mname pf srch wr ((u, r) # xs) =
     (case write_values analyze mname pf srch wr [(u, r)] of
        Inl e \<Rightarrow> Inl e
      | Inr wr1 \<Rightarrow> write_values analyze mname pf srch wr1 xs)"
    by (rule write_values_step)
  show ?case
    unfolding a append_Cons l r using Cons.IH
    by (cases "write_values analyze mname pf srch wr [(u, r)]")
       (simp_all del: write_values.simps)
qed

lemma write_values_step_ok:
  assumes "text_of r pk \<noteq> None"
    and "u \<longrightarrow> insert pk (set srch) \<subseteq> dom (idx_schema (wr_index wr)) \<and>
               (\<forall>k\<in>set srch. text_of r k \<noteq> None)"
  shows "\<exists>wr1. wr_index wr1 = wr_index wr \<and>
     (\<forall>rest. write_values analyze mname (Some pk) srch wr ((u, r) # rest)
        = write_values analyze mname (Some pk) srch wr1 rest)"
proof -
  obtain x k where x: "getattr r (Some pk) = Inr x" "unicode x = Inr k"
    using assms(1) by (rule text_of_present)
  show ?thesis
  proof (cases u)
    case False
    show ?thesis
      by (rule exI [of _ "delete_by_term analyze wr pk k"])
         (use False x in \<open>simp add: delete_by_term_index del: unicode.simps\<close>)
  next
    case True
    then have sub: "insert pk (set srch) \<subseteq> dom (idx_schema (wr_index wr))"
      and p: "\<forall>k\<in>set srch. text_of r k \<noteq> None" using assms(2) by simp_all
    obtain attrs where b: "build_attrs mname r srch [] = Inr attrs"
      and f: "fst ` set attrs = fst ` set ([] :: doc) \<union> set srch"
      using build_attrs_ok [OF p, of mname "[]"] by blast
    have "fst ` set (AList.update pk k attrs) = insert pk (set srch)"
      using f by (simp add: dom_update)
    then have "fst ` set (AList.update pk k attrs) \<subseteq> dom (idx_schema (wr_index wr))"
      using sub by simp
    from update_document_ok [OF this, of analyze]
    obtain wr1 where w: "update_document analyze wr (AList.update pk k attrs) = Inr wr1"
      by blast
    have i: "wr_index wr1 = wr_index wr" using w by (rule update_document_index)
    show ?thesis
      by (rule exI [of _ wr1]) (use True x b w i in \<open>simp del: unicode.simps\<close>)
  qed
qed

lemma write_values_ok:
  assumes "\<forall>x\<in>set vals. text_of (snd x) pk \<noteq> None \<and>
             (fst x \<longrightarrow> insert pk (set srch) \<subseteq> dom (idx_schema (wr_index wr)) \<and>
                        (\<forall>k\<in>set srch. text_of (snd x) k \<noteq> None))"
  shows "\<exists>wr'. write_values analyze mname (Some pk) srch wr vals = Inr wr'"
  using assms
proof (induction vals arbitrary: wr)
  case Nil
  then show ?case by simp
next
  case (Cons a vals)
  obtain u r where a: "a = (u, r)" by (cases a)
  have 1: "text_of r pk \<noteq> None" using Cons.prems a by simp
  have 2: "u \<longrightarrow> insert pk (set srch) \<subseteq> dom (idx_schema (wr_index wr)) \<and>
               (\<forall>k\<in>set srch. text_of r k \<noteq> None)" using Cons.prems a by simp
  obtain wr1 where i: "wr_index wr1 = wr_index wr"
    and s: "\<forall>rest. write_values analyze mname (Some pk) srch wr ((u, r) # rest)
        = write_values analyze mname (Some pk) srch wr1 rest"
    using write_values_step_ok [OF 1 2, of analyze mname] by blast
  have "\<forall>x\<in>set vals. text_of (snd x) pk \<noteq> None \<and>
             (fst x \<longrightarrow> insert pk (set srch) \<subseteq> dom (idx_schema (wr_index wr1)) \<and>
                        (\<forall>k\<in>set srch. text_of (snd x) k \<noteq> None))"
    using Cons.prems unfolding i by simp
  from Cons.IH [OF this] obtain wr' where
    "write_values analyze mname (Some pk) srch wr1 vals = Inr wr'" by blast
  then show ?case unfolding a using s by (simp del: write_values.simps)
qed

lemma write_values_missing_at:
  assumes "write_values analyze mname pf srch wr pre = Inr wr'"
    and "srch = kpre @ key # kpost" and "\<forall>k\<in>set kpre. text_of v k \<noteq> None"
    and "obj_attrs v key = None"
  shows "write_values analyze mname pf srch wr (pre @ (True, v) # post)
     = Inl (AttributeError (mname @ '' does not have __searchable__ field '' @ key))"
  unfolding write_values_append assms(1) sum.case
  using build_attrs_missing_at [OF assms(3,4), of mname kpost "[]"] assms(2)
  by simp

lemma write_values_missing:
  "(True, v) \<in> set values \<Longrightarrow> key \<in> set srch \<Longrightarrow> obj_attrs v key = None \<Longrightarrow>
   \<exists>e. write_values analyze mname pf srch wr values = Inl e"
proof -
  assume m: "(True, v) \<in> set values" and k: "key \<in> set srch" and n: "obj_attrs v key = None"
  obtain pre post where s: "values = pre @ (True, v) # post"
    using m by (meson split_list)
  obtain e where b: "build_attrs mname v srch [] = Inl e"
    using build_attrs_missing [OF k n] by blast
  show ?thesis
  proof (cases "write_values analyze mname pf srch wr pre")
    case (Inl e')
    then show ?thesis unfolding s write_values_append by simp
  next
    case (Inr wr')
    then show ?thesis unfolding s write_values_append using b by simp
  qed
qed

lemma write_types_Inr:
  assumes "write_types analyze app ((mname, values) # rest) = Inr app'"
  obtains u0 v0 vs indx app1 wr s srch wr' where
     "values = (u0, v0) # vs" and
     "whoosh_index app v0 = Inr (indx, app1)" and
     "index_writer app1 indx = Inr wr" and
     "pure_whoosh app1 (cname (cls v0)) = Some s" and
     "searchable (cls v0) = Some srch" and
     "write_values analyze mname (s_primary_key_name s) srch wr values = Inr wr'" and
     "write_types analyze (writer_commit app1 wr') rest = Inr app'"
proof (cases "values")
  case Nil
  then show ?thesis using assms by simp
next
  case (Cons x vs)
  obtain u0 v0 where x: "x = (u0, v0)" by (cases x)
  have v: "values = (u0, v0) # vs" using Cons x by simp
  note a = assms [unfolded v write_types.simps list.case prod.case]
  show ?thesis
  proof (cases "whoosh_index app v0")
    case (Inl e)
    then show ?thesis using a by simp
  next
    case (Inr p)
    obtain indx app1 where p: "p = (indx, app1)" by (cases p)
    note a1 = a [unfolded Inr p sum.case prod.case]
    show ?thesis
    proof (cases "index_writer app1 indx")
      case (Inl e)
      then show ?thesis using a1 by simp
    next
      case wr: (Inr wr)
      note a2 = a1 [unfolded wr sum.case]
      show ?thesis
      proof (cases "pure_whoosh app1 (cname (cls v0))")
        case None
        then show ?thesis using a2 by simp
      next
        case (Some s)
        note a3 = a2 [unfolded Some option.case]
        show ?thesis
        proof (cases "searchable (cls v0)")
          case None
          then show ?thesis using a3 by simp
        next
          case srch: (Some srch)
          note a4 = a3 [unfolded srch option.case]
          show ?thesis
          proof (cases "write_values analyze mname (s_primary_key_name s) srch wr
                          ((u0, v0) # vs)")
            case (Inl e)
            then show ?thesis using a4 by (simp del: write_values.simps)
          next
            case wr': (Inr wr')
            note a5 = a4 [unfolded wr' sum.case]
            show ?thesis
              by (rule that [OF v Inr [unfolded p] wr Some srch wr' [folded v] a5])
          qed
        qed
      qed
    qed
  qed
qed

lemma not_Inr_Inl: "(\<forall>a. x \<noteq> Inr a) \<Longrightarrow> \<exists>e. x = Inl e"
  by (cases x) auto

lemma write_types_missing:
  assumes "\<forall>e\<in>set B. \<forall>x\<in>set (snd e). \<forall>y\<in>set (snd e). cls (snd x) = cls (snd y)"
    and "(n, vs) \<in> set B" and "(True, v) \<in> set vs"
    and "searchable (cls v) = Some srch" and "key \<in> set srch" and "obj_attrs v key = None"
  shows "\<exists>e. write_types analyze app B = Inl e"
proof -
  have "\<forall>app'. write_types analyze app B \<noteq> Inr app'"
    using assms(1,2)
  proof (induction B arbitrary: app)
    case Nil
    then show ?case by simp
  next
    case (Cons b B)
    obtain mname "values" where b: "b = (mname, values)" by (cases b)
    show ?case
    proof (intro allI notI)
      fix app'
      assume A: "write_types analyze app (b # B) = Inr app'"
      show False
      proof (rule write_types_Inr [OF A [unfolded b]])
      fix u0 v0 rest indx app1 wr s srch0 wr'
      assume vals: "values = (u0, v0) # rest"
        and s0: "searchable (cls v0) = Some srch0"
        and wv: "write_values analyze mname (s_primary_key_name s) srch0 wr values = Inr wr'"
        and wt: "write_types analyze (writer_commit app1 wr') B = Inr app'"
      have disj: "(n, vs) = b \<or> (n, vs) \<in> set B" using Cons.prems(2) by simp
      show False
      proof (rule disjE [OF disj])
        assume eq: "(n, vs) = b"
        have mv: "mname = n" "values = vs" using b eq by simp_all
        have m1: "(u0, v0) \<in> set (snd b)" using b vals by simp
        have m2: "(True, v) \<in> set (snd b)" using b mv assms(3) by simp
        have m0: "b \<in> set (b # B)" by simp
        have "cls (snd (u0, v0)) = cls (snd (True, v))"
          using Cons.prems(1) [rule_format, OF m0 m1 m2] .
        then have "cls v0 = cls v" by simp
        then have sr: "srch0 = srch" using s0 assms(4) by simp
        obtain e where "write_values analyze n (s_primary_key_name s) srch wr vs = Inl e"
          using write_values_missing [OF assms(3,5,6), of analyze n "s_primary_key_name s" wr] ..
        then have "write_values analyze mname (s_primary_key_name s) srch0 wr values = Inl e"
          unfolding mv sr .
        then have "Inl e = (Inr wr' :: error + writer)" by (rule trans [OF sym wv])
        then show False by (simp only: Inl_Inr_False)
      next
        assume in_rest: "(n, vs) \<in> set B"
        have inv: "\<forall>e\<in>set B. \<forall>x\<in>set (snd e). \<forall>y\<in>set (snd e). cls (snd x) = cls (snd y)"
        proof (intro ballI)
          fix e x y
          assume "e \<in> set B" and x: "x \<in> set (snd e)" and y: "y \<in> set (snd e)"
          then have "e \<in> set (b # B)" by simp
          then show "cls (snd x) = cls (snd y)"
            using Cons.prems(1) x y by blast
        qed
        have "\<forall>app'. write_types analyze (writer_commit app1 wr') B \<noteq> Inr app'"
          by (rule Cons.IH [OF inv in_rest])
        then show False using wt by blast
      qed
      qed
    qed
  qed
  then show ?thesis by (rule not_Inr_Inl)
qed

lemma collect_changes_entry:
  assumes "(n, vs) \<in> set (collect_changes changes [])"
  shows "vs = changes_of_type n changes \<and> vs \<noteq> []"
proof -
  have "map_of (collect_changes changes []) n = Some vs"
    using assms by (simp add: collect_changes_distinct)
  then show ?thesis
    by (simp add: collect_changes_acc split: if_splits)
qed

lemma changes_of_type_member:
  assumes "x \<in> set (changes_of_type n changes)"
  obtains c where "c \<in> set changes" and "searchable (cls (fst c)) \<noteq> None"
    and "cname (cls (fst c)) = n" and "snd x = fst c"
    and "fst x = (snd c = ''insert'' \<or> snd c = ''update'')"
  using assms unfolding changes_of_type_def by auto

lemma single_key_list:
  assumes "distinct (map fst B)" and "\<forall>b\<in>set B. fst b = k" and "(k, v) \<in> set B"
  shows "B = [(k, v)]"
proof (cases B)
  case Nil
  then show ?thesis using assms(3) by simp
next
  case (Cons b B')
  have "B' = []"
  proof (rule ccontr)
    assume "B' \<noteq> []"
    then obtain b' B'' where B': "B' = b' # B''" by (cases B') auto
    have "fst b = k" "fst b' = k" using assms(2) Cons B' by simp_all
    then show False using assms(1) Cons B' by simp
  qed
  then show ?thesis using assms(3) Cons by simp
qed

lemma collect_changes_one_class:
  assumes one: "\<forall>c\<in>set changes. searchable (cls (fst c)) \<noteq> None \<longrightarrow> cls (fst c) = C"
    and ne: "changes_of_type (cname C) changes \<noteq> []"
  shows "collect_changes changes [] = [(cname C, changes_of_type (cname C) changes)]"
proof (rule single_key_list)
  show "distinct (map fst (collect_changes changes []))"
    by (simp add: collect_changes_distinct)
  show "\<forall>b\<in>set (collect_changes changes []). fst b = cname C"
  proof
    fix b assume "b \<in> set (collect_changes changes [])"
    then have "(fst b, snd b) \<in> set (collect_changes changes [])" by simp
    then have "snd b = changes_of_type (fst b) changes" "snd b \<noteq> []"
      using collect_changes_entry by blast+
    then have "hd (changes_of_type (fst b) changes) \<in> set (changes_of_type (fst b) changes)"
      by simp
    then obtain c where "c \<in> set changes" "searchable (cls (fst c)) \<noteq> None"
      "cname (cls (fst c)) = fst b"
      by (rule changes_of_type_member)
    then show "fst b = cname C" using one by auto
  qed
  have "map_of (collect_changes changes []) (cname C)
          = Some (changes_of_type (cname C) changes)"
    using ne by (simp add: collect_changes_acc)
  then show "(cname C, changes_of_type (cname C) changes) \<in> set (collect_changes changes [])"
    by (rule map_of_SomeD)
qed

lemma write_types_single:
  assumes "whoosh_index app v0 = Inr (indx, app1)"
    and "fs app1 (idx_dir indx) = Some st"
    and "pure_whoosh app1 (cname (cls v0)) = Some s"
    and "searchable (cls v0) = Some srch"
  shows "write_types analyze app [(mname, (u0, v0) # rest)] =
     (case write_values analyze mname (s_primary_key_name s) srch
             \<lparr>wr_index = indx, wr_docs = st_docs st, wr_added = []\<rparr> ((u0, v0) # rest) of
        Inl e \<Rightarrow> Inl e
      | Inr wr' \<Rightarrow> Inr (writer_commit app1 wr'))"
  using assms
  by (simp add: index_writer_def del: write_values.simps split: sum.splits)

lemma iteritems_single:
  "\<forall>B. mset (iteritems B) = mset B \<Longrightarrow> iteritems [b] = [b]"
  by (simp add: mset_single_iff [symmetric] del: mset_single_iff)

text \<open>
  Claim C3. Let a commit hold an insert or update of a record that lacks an attribute its
  class declares searchable (classes of one name being one class, and the dictionary's
  items coming in any order). Then \<^verbatim>\<open>_after_flush\<close> raises: it returns no state, so the
  record is not skipped and the writer of its batch is not committed. The error is the
  \<^verbatim>\<open>AttributeError\<close> with the module's message, naming the class and the first missing
  searchable attribute, whenever nothing raises before the record's document is built:
  when the records of the commit that declare searchable names are all of this class, the
  index of the class opens with a primary key name, the records before it in the commit
  have a key and, if upserted, all searchable attributes, which are fields of the index,
  and the record's searchable attributes before the missing one have a string form.
\<close>

theorem after_flush_missing_searchable:
  assumes "changes = cpre @ (v, op) # cpost"
    and "op = ''insert'' \<or> op = ''update''"
    and "searchable (cls v) = Some srch"
    and "srch = kpre @ key # kpost"
    and "obj_attrs v key = None"
    and "\<forall>B. mset (iteritems B) = mset B"
    and "\<forall>c\<in>set changes. \<forall>c'\<in>set changes.
           cname (cls (fst c)) = cname (cls (fst c')) \<longrightarrow> cls (fst c) = cls (fst c')"
  shows "(\<exists>e. after_flush iteritems analyze app changes = Inl e) \<and>
    ((\<forall>c\<in>set changes. searchable (cls (fst c)) \<noteq> None \<longrightarrow> cls (fst c) = cls v) \<and>
     changes_of_type (cname (cls v)) changes = (u0, v0) # rest \<and>
     whoosh_index app v0 = Inr (indx, app1) \<and>
     fs app1 (idx_dir indx) = Some st \<and>
     pure_whoosh app1 (cname (cls v)) = Some s \<and> s_primary_key_name s = Some pk \<and>
     (\<forall>c\<in>set cpre. searchable (cls (fst c)) \<noteq> None \<longrightarrow>
          text_of (fst c) pk \<noteq> None \<and>
          (snd c = ''insert'' \<or> snd c = ''update'' \<longrightarrow>
             insert pk (set srch) \<subseteq> dom (idx_schema indx) \<and>
             (\<forall>k\<in>set srch. text_of (fst c) k \<noteq> None))) \<and>
     (\<forall>k\<in>set kpre. text_of v k \<noteq> None)
     \<longrightarrow> after_flush iteritems analyze app changes
          = Inl (AttributeError
                  (cname (cls v) @ '' does not have __searchable__ field '' @ key)))"
proof (intro conjI impI)
  let ?B = "collect_changes changes []"
  let ?n = "cname (cls v)"
  let ?vs = "changes_of_type ?n changes"
  have key: "key \<in> set srch" using assms(4) by simp
  have mem: "(True, v) \<in> set ?vs"
    using assms(1,2,3) by (force simp: changes_of_type_def)
  then have "?vs \<noteq> []" by auto
  then have "map_of ?B ?n = Some ?vs" by (simp add: collect_changes_acc)
  then have "(?n, ?vs) \<in> set ?B" by (rule map_of_SomeD)
  moreover have sB: "set (iteritems ?B) = set ?B"
    using assms(6) by (metis mset_eq_setD)
  ultimately have entry: "(?n, ?vs) \<in> set (iteritems ?B)" by simp
  have inv: "\<forall>e\<in>set (iteritems ?B). \<forall>x\<in>set (snd e). \<forall>y\<in>set (snd e).
               cls (snd x) = cls (snd y)"
  proof (intro ballI)
    fix e x y
    assume e: "e \<in> set (iteritems ?B)" and x: "x \<in> set (snd e)" and y: "y \<in> set (snd e)"
    have "(fst e, snd e) \<in> set ?B" using e sB by simp
    then have se: "snd e = changes_of_type (fst e) changes"
      using collect_changes_entry by blast
    obtain cx where cx: "cx \<in> set changes" "cname (cls (fst cx)) = fst e" "snd x = fst cx"
      using x unfolding se by (rule changes_of_type_member)
    obtain cy where cy: "cy \<in> set changes" "cname (cls (fst cy)) = fst e" "snd y = fst cy"
      using y unfolding se by (rule changes_of_type_member)
    have "cls (fst cx) = cls (fst cy)"
      using assms(7) [rule_format, OF cx(1) cy(1)] cx(2) cy(2) by simp
    then show "cls (snd x) = cls (snd y)" using cx(3) cy(3) by simp
  qed
  show "\<exists>e. after_flush iteritems analyze app changes = Inl e"
    unfolding after_flush_def
    by (rule write_types_missing [OF inv entry mem assms(3) key assms(5)])
next
  let ?n = "cname (cls v)"
  let ?wr = "\<lparr>wr_index = indx, wr_docs = st_docs st, wr_added = []\<rparr>"
  assume H: "(\<forall>c\<in>set changes. searchable (cls (fst c)) \<noteq> None \<longrightarrow> cls (fst c) = cls v) \<and>
     changes_of_type (cname (cls v)) changes = (u0, v0) # rest \<and>
     whoosh_index app v0 = Inr (indx, app1) \<and>
     fs app1 (idx_dir indx) = Some st \<and>
     pure_whoosh app1 (cname (cls v)) = Some s \<and> s_primary_key_name s = Some pk \<and>
     (\<forall>c\<in>set cpre. searchable (cls (fst c)) \<noteq> None \<longrightarrow>
          text_of (fst c) pk \<noteq> None \<and>
          (snd c = ''insert'' \<or> snd c = ''update'' \<longrightarrow>
             insert pk (set srch) \<subseteq> dom (idx_schema indx) \<and>
             (\<forall>k\<in>set srch. text_of (fst c) k \<noteq> None))) \<and>
     (\<forall>k\<in>set kpre. text_of v k \<noteq> None)"
  then have one: "\<forall>c\<in>set changes. searchable (cls (fst c)) \<noteq> None \<longrightarrow> cls (fst c) = cls v"
    and batch: "changes_of_type ?n changes = (u0, v0) # rest"
    and wi: "whoosh_index app v0 = Inr (indx, app1)"
    and st: "fs app1 (idx_dir indx) = Some st"
    and pw: "pure_whoosh app1 ?n = Some s" and pk: "s_primary_key_name s = Some pk"
    and earlier: "\<forall>c\<in>set cpre. searchable (cls (fst c)) \<noteq> None \<longrightarrow>
          text_of (fst c) pk \<noteq> None \<and>
          (snd c = ''insert'' \<or> snd c = ''update'' \<longrightarrow>
             insert pk (set srch) \<subseteq> dom (idx_schema indx) \<and>
             (\<forall>k\<in>set srch. text_of (fst c) k \<noteq> None))"
    and kpre: "\<forall>k\<in>set kpre. text_of v k \<noteq> None"
    by blast+
  have ne: "changes_of_type ?n changes \<noteq> []" using batch by simp
  have B: "collect_changes changes [] = [(?n, (u0, v0) # rest)]"
    using collect_changes_one_class [OF one ne] batch by simp
  have it: "iteritems [(?n, (u0, v0) # rest)] = [(?n, (u0, v0) # rest)]"
    by (rule iteritems_single [OF assms(6)])
  have "(u0, v0) \<in> set (changes_of_type ?n changes)" using batch by simp
  then obtain c0 where c0: "c0 \<in> set changes" "searchable (cls (fst c0)) \<noteq> None"
    "snd (u0, v0) = fst c0"
    by (rule changes_of_type_member)
  have c: "cls v0 = cls v" using one c0 by simp
  have pw0: "pure_whoosh app1 (cname (cls v0)) = Some s" using pw c by simp
  have s0: "searchable (cls v0) = Some srch" using assms(3) c by simp
  have wt: "write_types analyze app [(?n, (u0, v0) # rest)] =
     (case write_values analyze ?n (Some pk) srch ?wr ((u0, v0) # rest) of
        Inl e \<Rightarrow> Inl e
      | Inr wr' \<Rightarrow> Inr (writer_commit app1 wr'))"
    using write_types_single [OF wi st pw0 s0, of analyze ?n u0 rest] pk by simp
  have split: "(u0, v0) # rest
     = changes_of_type ?n cpre @ (True, v) # changes_of_type ?n cpost"
    unfolding batch [symmetric] assms(1) using assms(2,3) by (auto simp: changes_of_type_def)
  have ok: "\<forall>x\<in>set (changes_of_type ?n cpre). text_of (snd x) pk \<noteq> None \<and>
             (fst x \<longrightarrow> insert pk (set srch) \<subseteq> dom (idx_schema (wr_index ?wr)) \<and>
                        (\<forall>k\<in>set srch. text_of (snd x) k \<noteq> None))"
  proof
    fix x assume "x \<in> set (changes_of_type ?n cpre)"
    then obtain c where c: "c \<in> set cpre" "searchable (cls (fst c)) \<noteq> None"
      "snd x = fst c" "fst x = (snd c = ''insert'' \<or> snd c = ''update'')"
      by (rule changes_of_type_member)
    show "text_of (snd x) pk \<noteq> None \<and>
             (fst x \<longrightarrow> insert pk (set srch) \<subseteq> dom (idx_schema (wr_index ?wr)) \<and>
                        (\<forall>k\<in>set srch. text_of (snd x) k \<noteq> None))"
      using earlier [rule_format, OF c(1,2)] c(3,4) by simp
  qed
  obtain wr' where pre:
    "write_values analyze ?n (Some pk) srch ?wr (changes_of_type ?n cpre) = Inr wr'"
    using write_values_ok [OF ok, of analyze ?n] by blast
  have wv: "write_values analyze ?n (Some pk) srch ?wr ((u0, v0) # rest)
     = Inl (AttributeError (?n @ '' does not have __searchable__ field '' @ key))"
    unfolding split by (rule write_values_missing_at [OF pre assms(4) kpre assms(5)])
  show "after_flush iteritems analyze app changes
          = Inl (AttributeError (?n @ '' does not have __searchable__ field '' @ key))"
    unfolding after_flush_def B it wt wv by simp
qed

lemma bad_facts:
  "cls bad = Article" "obj_attrs bad ''body'' = None"
  "text_of bad ''title'' = Some ''x''"
  by (simp_all add: bad_def text_of_def)

lemma a1_texts:
  "text_of a1 ''id'' = Some ''1''" "text_of a1 ''title'' = Some ''red fox''"
  "text_of a1 ''body'' = Some ''jumps''"
  by (simp_all add: a1_def article_def text_of_def dec_int_1)

theorem after_flush_missing_searchable_witness:
  "obj_attrs bad ''body'' = None \<and>
   (\<exists>e. after_flush insertion_order analyze_ex app0 [(a1, ''insert''), (bad, ''update'')] = Inl e) \<and>
   after_flush insertion_order analyze_ex app0 [(a1, ''insert''), (bad, ''update'')]
     = Inl (AttributeError ''Article does not have __searchable__ field body'')"
proof -
  let ?changes = "[(a1, ''insert''), (bad, ''update'')]"
  have 1: "?changes = [(a1, ''insert'')] @ (bad, ''update'') # []" by simp
  have 2: "''update'' = ''insert'' \<or> ''update'' = ''update''" by simp
  have 3: "searchable (cls bad) = Some [''title'', ''body'']"
    by (simp add: bad_facts example_classes)
  have 4: "[''title'', ''body''] = [''title''] @ ''body'' # []" by simp
  have 5: "obj_attrs bad ''body'' = None" by (rule bad_facts)
  have 6: "\<forall>B. mset (insertion_order B) = mset B" by (simp add: insertion_order_def)
  have 7: "\<forall>c\<in>set ?changes. \<forall>c'\<in>set ?changes.
           cname (cls (fst c)) = cname (cls (fst c')) \<longrightarrow> cls (fst c) = cls (fst c')"
    by (simp add: bad_facts example_classes)
  have h1: "\<forall>c\<in>set ?changes. searchable (cls (fst c)) \<noteq> None \<longrightarrow> cls (fst c) = cls bad"
    by (simp add: bad_facts example_classes)
  have h2: "changes_of_type (cname (cls bad)) ?changes = (True, a1) # [(True, bad)]"
    by (simp add: changes_of_type_def bad_facts example_classes)
  have h3: "fs app_first (idx_dir article_index)
              = Some \<lparr>st_schema = article_schema, st_docs = []\<rparr>"
    by (simp add: app_first_def article_index_def)
  have h4: "pure_whoosh app_first (cname (cls bad)) = Some article_searcher"
    by (simp add: app_first_def bad_facts example_classes)
  have h5: "s_primary_key_name article_searcher = Some ''id''"
    by (simp add: article_searcher_def)
  have h6: "\<forall>c\<in>set [(a1, ''insert'')]. searchable (cls (fst c)) \<noteq> None \<longrightarrow>
          text_of (fst c) ''id'' \<noteq> None \<and>
          (snd c = ''insert'' \<or> snd c = ''update'' \<longrightarrow>
             insert ''id'' (set [''title'', ''body'']) \<subseteq> dom (idx_schema article_index) \<and>
             (\<forall>k\<in>set [''title'', ''body'']. text_of (fst c) k \<noteq> None))"
    by (simp add: a1_texts article_index_def article_schema_def)
  have h7: "\<forall>k\<in>set [''title'']. text_of bad k \<noteq> None" by (simp add: bad_facts)
  note t = after_flush_missing_searchable [OF 1 2 3 4 5 6 7,
      of analyze_ex app0 True a1 "[(True, bad)]" article_index app_first
         "\<lparr>st_schema = article_schema, st_docs = []\<rparr>" article_searcher "''id''"]
  have g: "\<exists>e. after_flush insertion_order analyze_ex app0 ?changes = Inl e"
    using t by blast
  have "after_flush insertion_order analyze_ex app0 ?changes
     = Inl (AttributeError (cname (cls bad) @ '' does not have __searchable__ field '' @ ''body''))"
    using t h1 h2 whoosh_index_app0 h3 h4 h5 h6 h7 by blast
  then have s: "after_flush insertion_order analyze_ex app0 ?changes
     = Inl (AttributeError ''Article does not have __searchable__ field body'')"
    by (simp add: bad_facts example_classes)
  show ?thesis using 5 g s by blast
qed

section \<open>Replacement of a document by a later upsert\<close>

lemma has_term_ID:
  "sch pk = Some (ID s u) \<Longrightarrow> has_term analyze sch old pk k = matches old pk k"
  by (simp add: has_term_def matches_def split: option.splits)

lemma kept_subset: "set (map snd (filter Q (enumerate n xs))) \<subseteq> set xs"
  by (auto simp: in_set_enumerate_eq)

lemma none_kept:
  assumes "\<forall>x\<in>set xs. \<not> P x"
  shows "filter P (map snd (filter Q (enumerate n xs))) = []"
  using assms kept_subset [of Q n xs] by (auto simp: filter_empty_conv)

lemma first_index_None: "first_index P xs = None \<Longrightarrow> \<forall>x\<in>set xs. \<not> P x"
  by (induction xs) (auto split: if_splits)

lemma first_match_removed:
  "length (filter P xs) \<le> 1 \<Longrightarrow> first_index P xs = Some i \<Longrightarrow> n + i \<in> F \<Longrightarrow>
   filter P (map snd (filter (\<lambda>(j, x). j \<notin> F) (enumerate n xs))) = []"
proof (induction xs arbitrary: n i)
  case Nil
  then show ?case by simp
next
  case (Cons x xs)
  show ?case
  proof (cases "P x")
    case True
    then have i: "i = 0" using Cons.prems(2) by simp
    have "filter P xs = []" using Cons.prems(1) True by simp
    then have "\<forall>y\<in>set xs. \<not> P y" by (simp add: filter_empty_conv)
    then have "filter P (map snd (filter (\<lambda>(j, x). j \<notin> F) (enumerate (Suc n) xs))) = []"
      by (rule none_kept)
    then show ?thesis using Cons.prems(3) i by simp
  next
    case False
    then obtain i' where i': "first_index P xs = Some i'" "i = Suc i'"
      using Cons.prems(2) by auto
    have l: "length (filter P xs) \<le> 1" using Cons.prems(1) False by simp
    have "Suc n + i' \<in> F" using Cons.prems(3) i'(2) by simp
    from Cons.IH [OF l i'(1) this] show ?thesis using False by simp
  qed
qed

lemma in_map_filter:
  "x \<in> set xs \<Longrightarrow> f x = Some y \<Longrightarrow> y \<in> set (List.map_filter f xs)"
  by (force simp: List.map_filter_def)

lemma replaced_by_key:
  assumes idf: "sch pk = Some (ID s True)" and k: "map_of d pk = Some k"
    and atmost: "length (filter (\<lambda>old. matches old pk k) docs) \<le> 1"
  shows "filter (\<lambda>old. matches old pk k)
           (map snd (filter (\<lambda>(i, old). i \<notin> set (List.map_filter
               (\<lambda>(n, v). first_index (\<lambda>old. has_term analyze sch old n v) docs)
               (unique_terms sch d)))
             (enumerate 0 docs)) @ [d])
         = [d]"
proof -
  let ?P = "\<lambda>old. matches old pk k"
  let ?F = "set (List.map_filter
               (\<lambda>(n, v). first_index (\<lambda>old. has_term analyze sch old n v) docs)
               (unique_terms sch d))"
  have "(pk, k) \<in> set d" using k by (rule map_of_SomeD)
  then have u: "(pk, k) \<in> set (unique_terms sch d)"
    using idf by (simp add: unique_terms_def)
  have e: "(\<lambda>old. has_term analyze sch old pk k) = ?P"
    using idf by (simp add: has_term_ID [of sch pk s True])
  have gone: "filter ?P (map snd (filter (\<lambda>(i, old). i \<notin> ?F) (enumerate 0 docs))) = []"
  proof (cases "first_index ?P docs")
    case None
    then have "\<forall>x\<in>set docs. \<not> ?P x" by (rule first_index_None)
    then show ?thesis by (rule none_kept)
  next
    case (Some i)
    have "(\<lambda>(n, v). first_index (\<lambda>old. has_term analyze sch old n v) docs) (pk, k) = Some i"
      using Some e by simp
    then have "i \<in> ?F" by (rule in_map_filter [OF u])
    then have "0 + i \<in> ?F" by simp
    from first_match_removed [OF atmost Some this] show ?thesis .
  qed
  have "matches d pk k" using k by (simp add: matches_def)
  then show ?thesis using gone by simp
qed

lemma whoosh_index_registers:
  assumes "whoosh_index app m = Inr (indx, app1)"
  shows "\<exists>d. whoosh_indexes app1 = Some d \<and> d (cname (cls m)) = Some indx"
proof (cases "(case whoosh_indexes app of None \<Rightarrow> Map.empty | Some d \<Rightarrow> d) (cname (cls m))")
  case (Some i)
  then show ?thesis using assms by (auto simp: whoosh_index_def Let_def)
next
  case None
  then show ?thesis
    using assms
    by (auto simp: whoosh_index_def Let_def split: sum.splits option.splits prod.splits)
qed

lemma collect_changes_single:
  assumes "op = ''insert'' \<or> op = ''update''" and "searchable (cls r) = Some srch"
  shows "collect_changes [(r, op)] [] = [(cname (cls r), [(True, r)])]"
  using assms by auto

lemma after_flush_upsert:
  assumes op: "op = ''insert'' \<or> op = ''update''"
    and srch: "searchable (cls r) = Some srch"
    and perm: "\<forall>B. mset (iteritems B) = mset B"
    and wi: "whoosh_index app r = Inr (indx, app1)"
    and st: "fs app1 (idx_dir indx) = Some st"
    and pw: "pure_whoosh app1 (cname (cls r)) = Some s" "s_primary_key_name s = Some pk"
    and present: "\<forall>key\<in>set srch. text_of r key \<noteq> None"
    and key: "text_of r pk = Some k"
    and sch: "insert pk (set srch) \<subseteq> dom (idx_schema indx)"
  shows "\<exists>d. map_of d = (\<lambda>key. if key = pk \<or> key \<in> set srch then text_of r key else None) \<and>
     after_flush iteritems analyze app [(r, op)] =
       Inr (app1\<lparr>fs := (fs app1)(idx_dir indx \<mapsto>
              \<lparr>st_schema = st_schema st,
               st_docs = map snd (filter (\<lambda>(i, old). i \<notin> set (List.map_filter
                   (\<lambda>(n, v). first_index (\<lambda>old. has_term analyze (idx_schema indx) old n v)
                      (st_docs st))
                   (unique_terms (idx_schema indx) d)))
                 (enumerate 0 (st_docs st))) @ [d]\<rparr>)\<rparr>)"
proof -
  let ?cn = "cname (cls r)"
  obtain attrs where a: "build_attrs ?cn r srch [] = Inr attrs"
    and ma: "map_of attrs = (\<lambda>k. if k \<in> set srch then text_of r k else map_of [] k)"
    and fa: "fst ` set attrs = fst ` set ([] :: doc) \<union> set srch"
    using build_attrs_ok [OF present, of ?cn "[]"] by blast
  let ?d = "AList.update pk k attrs"
  let ?wr = "\<lparr>wr_index = indx, wr_docs = st_docs st, wr_added = []\<rparr>"
  let ?docs = "map snd (filter (\<lambda>(i, old). i \<notin> set (List.map_filter
                   (\<lambda>(n, v). first_index (\<lambda>old. has_term analyze (idx_schema indx) old n v)
                      (st_docs st))
                   (unique_terms (idx_schema indx) ?d)))
                 (enumerate 0 (st_docs st)))"
  let ?wr' = "\<lparr>wr_index = indx, wr_docs = ?docs, wr_added = [?d]\<rparr>"
  have md: "map_of ?d = (\<lambda>key. if key = pk \<or> key \<in> set srch then text_of r key else None)"
    using key by (auto simp: update_conv' ma fun_eq_iff)
  have "fst ` set ?d = insert pk (set srch)" using fa by (simp add: dom_update)
  then have sub: "fst ` set ?d \<subseteq> dom (idx_schema (wr_index ?wr))" using sch by simp
  have ud: "update_document analyze ?wr ?d = Inr ?wr'"
    using update_document_ok [OF sub, of analyze] by simp
  obtain x where ga: "getattr r (Some pk) = Inr x" and ux: "unicode x = Inr k"
    using key unfolding text_of_getattr by blast
  have wv: "write_values analyze ?cn (Some pk) srch ?wr [(True, r)] = Inr ?wr'"
    using a ga ux ud by (simp del: unicode.simps)
  have wt: "write_types analyze app [(?cn, [(True, r)])] = Inr (writer_commit app1 ?wr')"
    using write_types_single [OF wi st pw(1) srch, of analyze ?cn True "[]"] pw(2) wv
    by (simp del: write_values.simps)
  have it: "iteritems [(?cn, [(True, r)])] = [(?cn, [(True, r)])]"
    by (rule iteritems_single [OF perm])
  have af: "after_flush iteritems analyze app [(r, op)] = Inr (writer_commit app1 ?wr')"
    unfolding after_flush_def collect_changes_single [OF op srch] it by (rule wt)
  have wc: "writer_commit app1 ?wr' =
       app1\<lparr>fs := (fs app1)(idx_dir indx \<mapsto>
              \<lparr>st_schema = st_schema st, st_docs = ?docs @ [?d]\<rparr>)\<rparr>"
    using st by (simp add: writer_commit_def Let_def)
  show ?thesis
  proof (intro exI conjI)
    show "map_of ?d = (\<lambda>key. if key = pk \<or> key \<in> set srch then text_of r key else None)"
      by (rule md)
    show "after_flush iteritems analyze app [(r, op)] =
       Inr (app1\<lparr>fs := (fs app1)(idx_dir indx \<mapsto>
              \<lparr>st_schema = st_schema st, st_docs = ?docs @ [?d]\<rparr>)\<rparr>)"
      unfolding af wc by (rule refl)
  qed
qed

text \<open>
  Claim C8, as amended. Two records of one class whose primary keys have the same string
  form are upserted by two successive commits. The class's index has the key as a unique
  identifier field and the searchable names as fields, and holds at most one document
  with that key beforehand; both records have all the searchable attributes, in a string
  form. Then both commits succeed; after each, the index holds exactly one document with
  that key, and after the second it is the document of the later record: its fields are
  the key and the searchable attributes of that record, as strings, and no other.
\<close>

theorem upsert_twice_one_document:
  assumes c: "cls r2 = cls r1" and srch: "searchable (cls r1) = Some srch"
    and perm: "\<forall>B. mset (iteritems B) = mset B"
    and wi: "whoosh_index app r1 = Inr (indx, appA)"
    and st: "fs appA (idx_dir indx) = Some stA"
    and pw: "pure_whoosh appA (cname (cls r1)) = Some s" "s_primary_key_name s = Some pk"
    and idf: "idx_schema indx pk = Some (ID sto True)"
    and sub: "set srch \<subseteq> dom (idx_schema indx)"
    and p1: "\<forall>key\<in>set srch. text_of r1 key \<noteq> None"
    and p2: "\<forall>key\<in>set srch. text_of r2 key \<noteq> None"
    and k1: "text_of r1 pk = Some k" and k2: "text_of r2 pk = Some k"
    and op1: "op1 = ''insert'' \<or> op1 = ''update''"
    and op2: "op2 = ''insert'' \<or> op2 = ''update''"
    and atmost: "length (docs_for pk k (st_docs stA)) \<le> 1"
  shows "\<exists>app1 app2 st1 st2 d1 d2.
      after_flush iteritems analyze app [(r1, op1)] = Inr app1 \<and>
      after_flush iteritems analyze app1 [(r2, op2)] = Inr app2 \<and>
      fs app1 (idx_dir indx) = Some st1 \<and>
      docs_for pk k (st_docs st1) = [d1] \<and>
      map_of d1 = (\<lambda>key. if key = pk \<or> key \<in> set srch then text_of r1 key else None) \<and>
      fs app2 (idx_dir indx) = Some st2 \<and>
      docs_for pk k (st_docs st2) = [d2] \<and>
      map_of d2 = (\<lambda>key. if key = pk \<or> key \<in> set srch then text_of r2 key else None)"
proof -
  let ?cn = "cname (cls r1)"
  let ?sch = "idx_schema indx"
  have pkd: "pk \<in> dom ?sch" using idf by auto
  have inS: "insert pk (set srch) \<subseteq> dom ?sch" using sub pkd by simp
  obtain d1 where md1:
      "map_of d1 = (\<lambda>key. if key = pk \<or> key \<in> set srch then text_of r1 key else None)"
    and af1: "after_flush iteritems analyze app [(r1, op1)] =
       Inr (appA\<lparr>fs := (fs appA)(idx_dir indx \<mapsto>
              \<lparr>st_schema = st_schema stA,
               st_docs = map snd (filter (\<lambda>(i, old). i \<notin> set (List.map_filter
                   (\<lambda>(n, v). first_index (\<lambda>old. has_term analyze ?sch old n v) (st_docs stA))
                   (unique_terms ?sch d1)))
                 (enumerate 0 (st_docs stA))) @ [d1]\<rparr>)\<rparr>)"
    using after_flush_upsert [OF op1 srch perm wi st pw p1 k1 inS] by blast
  define st1 where "st1 = \<lparr>st_schema = st_schema stA,
               st_docs = map snd (filter (\<lambda>(i, old). i \<notin> set (List.map_filter
                   (\<lambda>(n, v). first_index (\<lambda>old. has_term analyze ?sch old n v) (st_docs stA))
                   (unique_terms ?sch d1)))
                 (enumerate 0 (st_docs stA))) @ [d1]\<rparr>"
  define app1 where "app1 = appA\<lparr>fs := (fs appA)(idx_dir indx \<mapsto> st1)\<rparr>"
  have af1': "after_flush iteritems analyze app [(r1, op1)] = Inr app1"
    unfolding app1_def st1_def by (rule af1)
  have fs1: "fs app1 (idx_dir indx) = Some st1" by (simp add: app1_def)
  have mk1: "map_of d1 pk = Some k" unfolding md1 using k1 by simp
  have one1: "docs_for pk k (st_docs st1) = [d1]"
    unfolding st1_def stored_index.simps docs_for_def
    by (rule replaced_by_key [of ?sch pk sto d1 k "st_docs stA" analyze,
          OF idf mk1 atmost [unfolded docs_for_def]])
  obtain dA where regA: "whoosh_indexes appA = Some dA" "dA ?cn = Some indx"
    using whoosh_index_registers [OF wi] by blast
  have reg1: "whoosh_indexes app1 = Some dA" using regA(1) by (simp add: app1_def)
  have cn2: "cname (cls r2) = ?cn" using c by simp
  have wi1: "whoosh_index app1 r2 = Inr (indx, app1)"
    by (rule whoosh_index_cached [OF reg1]) (simp add: cn2 regA(2))
  have pw1: "pure_whoosh app1 (cname (cls r2)) = Some s"
    using pw(1) by (simp add: app1_def cn2)
  have srch2: "searchable (cls r2) = Some srch" using srch c by simp
  have atmost1: "length (filter (\<lambda>d. matches d pk k) (st_docs st1)) \<le> 1"
    using one1 by (simp add: docs_for_def)
  obtain d2 where md2:
      "map_of d2 = (\<lambda>key. if key = pk \<or> key \<in> set srch then text_of r2 key else None)"
    and af2: "after_flush iteritems analyze app1 [(r2, op2)] =
       Inr (app1\<lparr>fs := (fs app1)(idx_dir indx \<mapsto>
              \<lparr>st_schema = st_schema st1,
               st_docs = map snd (filter (\<lambda>(i, old). i \<notin> set (List.map_filter
                   (\<lambda>(n, v). first_index (\<lambda>old. has_term analyze ?sch old n v) (st_docs st1))
                   (unique_terms ?sch d2)))
                 (enumerate 0 (st_docs st1))) @ [d2]\<rparr>)\<rparr>)"
    using after_flush_upsert [OF op2 srch2 perm wi1 fs1 pw1 pw(2) p2 k2 inS] by blast
  define st2 where "st2 = \<lparr>st_schema = st_schema st1,
               st_docs = map snd (filter (\<lambda>(i, old). i \<notin> set (List.map_filter
                   (\<lambda>(n, v). first_index (\<lambda>old. has_term analyze ?sch old n v) (st_docs st1))
                   (unique_terms ?sch d2)))
                 (enumerate 0 (st_docs st1))) @ [d2]\<rparr>"
  define app2 where "app2 = app1\<lparr>fs := (fs app1)(idx_dir indx \<mapsto> st2)\<rparr>"
  have af2': "after_flush iteritems analyze app1 [(r2, op2)] = Inr app2"
    unfolding app2_def st2_def by (rule af2)
  have fs2: "fs app2 (idx_dir indx) = Some st2" by (simp add: app2_def)
  have mk2: "map_of d2 pk = Some k" unfolding md2 using k2 by simp
  have one2: "docs_for pk k (st_docs st2) = [d2]"
    unfolding st2_def stored_index.simps docs_for_def
    by (rule replaced_by_key [of ?sch pk sto d2 k "st_docs st1" analyze, OF idf mk2 atmost1])
  show ?thesis
    apply (rule exI [of _ app1])
    apply (rule exI [of _ app2])
    apply (rule exI [of _ st1])
    apply (rule exI [of _ st2])
    apply (rule exI [of _ d1])
    apply (rule exI [of _ d2])
    apply (intro conjI)
           apply (rule af1')
          apply (rule af2')
         apply (rule fs1)
        apply (rule one1)
       apply (rule md1)
      apply (rule fs2)
     apply (rule one2)
    apply (rule md2)
    done
qed

lemma docs_written:
  "fs (app_docs docs) ''whoosh_index/Article''
     = Some \<lparr>st_schema = article_schema, st_docs = docs\<rparr>"
  "whoosh_index (app_docs docs) a1 = Inr (article_index, app_docs docs)"
  "whoosh_index (app_docs docs) a1b = Inr (article_index, app_docs docs)"
  "index_writer (app_docs docs) article_index
     = Inr \<lparr>wr_index = article_index, wr_docs = docs, wr_added = []\<rparr>"
  "pure_whoosh (app_docs docs) ''Article'' = Some article_searcher"
proof -
  have r: "whoosh_indexes (app_docs docs) = Some [''Article'' \<mapsto> article_index]"
    by (simp add: app_docs_def app_first_def)
  show "fs (app_docs docs) ''whoosh_index/Article''
     = Some \<lparr>st_schema = article_schema, st_docs = docs\<rparr>"
    by (simp add: app_docs_def)
  show "whoosh_index (app_docs docs) a1 = Inr (article_index, app_docs docs)"
    by (rule whoosh_index_cached [OF r]) (simp add: article_names)
  show "whoosh_index (app_docs docs) a1b = Inr (article_index, app_docs docs)"
    by (rule whoosh_index_cached [OF r]) (simp add: a1b_def article_def Article_def)
  show "index_writer (app_docs docs) article_index
     = Inr \<lparr>wr_index = article_index, wr_docs = docs, wr_added = []\<rparr>"
    by (simp add: index_writer_def app_docs_def article_index_def)
  show "pure_whoosh (app_docs docs) ''Article'' = Some article_searcher"
    by (simp add: app_docs_def app_first_def)
qed

lemma commit_docs:
  "writer_commit (app_docs docs) \<lparr>wr_index = article_index, wr_docs = kept, wr_added = added\<rparr>
     = app_docs (kept @ added)"
  "writer_commit app_first \<lparr>wr_index = article_index, wr_docs = kept, wr_added = added\<rparr>
     = app_docs (kept @ added)"
  by (simp_all add: writer_commit_def app_docs_def app_first_def article_index_def Let_def)

lemma a1b_class: "cls a1b = Article"
  by (simp add: a1b_def article_def)

lemma upsert_article:
  "update_document analyze_ex \<lparr>wr_index = article_index, wr_docs = [], wr_added = added\<rparr> doc1b
     = Inr \<lparr>wr_index = article_index, wr_docs = [], wr_added = added @ [doc1b]\<rparr>"
  "update_document analyze_ex \<lparr>wr_index = article_index, wr_docs = [], wr_added = added\<rparr> doc1
     = Inr \<lparr>wr_index = article_index, wr_docs = [], wr_added = added @ [doc1]\<rparr>"
  "update_document analyze_ex
      \<lparr>wr_index = article_index, wr_docs = [doc1, doc1b], wr_added = []\<rparr> doc1
     = Inr \<lparr>wr_index = article_index, wr_docs = [doc1b], wr_added = [doc1]\<rparr>"
  "update_document analyze_ex
      \<lparr>wr_index = article_index, wr_docs = [doc1b, doc1], wr_added = []\<rparr> doc1b
     = Inr \<lparr>wr_index = article_index, wr_docs = [doc1], wr_added = [doc1b]\<rparr>"
  by (simp_all add: update_document_def unique_terms_def List.map_filter_simps has_term_def
        article_index_def article_schema_def doc1_def doc1b_def enumerate_simps)

lemma article_documents:
  "build_attrs ''Article'' a1 [''title'', ''body''] []
     = Inr [(''title'', ''red fox''), (''body'', ''jumps'')]"
  "build_attrs ''Article'' a1b [''title'', ''body''] []
     = Inr [(''title'', ''green fox''), (''body'', ''jumps'')]"
  "AList.update ''id'' ''1'' [(''title'', ''red fox''), (''body'', ''jumps'')] = doc1"
  "AList.update ''id'' ''1'' [(''title'', ''green fox''), (''body'', ''jumps'')] = doc1b"
  by (simp_all add: article_texts doc1_def doc1b_def)

lemma write_article:
  "write_values analyze_ex ''Article'' (Some ''id'') [''title'', ''body''] wr ((True, a1) # rest)
     = (case update_document analyze_ex wr doc1 of
          Inl e \<Rightarrow> Inl e
        | Inr wr' \<Rightarrow>
            write_values analyze_ex ''Article'' (Some ''id'') [''title'', ''body''] wr' rest)"
  "write_values analyze_ex ''Article'' (Some ''id'') [''title'', ''body''] wr ((True, a1b) # rest)
     = (case update_document analyze_ex wr doc1b of
          Inl e \<Rightarrow> Inl e
        | Inr wr' \<Rightarrow>
            write_values analyze_ex ''Article'' (Some ''id'') [''title'', ''body''] wr' rest)"
  by (simp_all add: article_documents(1,2) article_texts dec_int_1 doc1_def doc1b_def
        del: build_attrs.simps)

lemma write_values_Nil: "write_values analyze mname pf srch wr [] = Inr wr"
  by simp

lemma tag_facts:
  "get_whoosh_schema_and_primary tag = Inr (tag_schema, Some ''slug'')"
  "whoosh_index app0 tag = Inr (tag_index, app_tag [])"
  "whoosh_index (app_tag docs) tag = Inr (tag_index, app_tag docs)"
  "index_writer (app_tag docs) tag_index
     = Inr \<lparr>wr_index = tag_index, wr_docs = docs, wr_added = []\<rparr>"
  "pure_whoosh (app_tag docs) ''Tag'' = Some tag_searcher"
  "writer_commit (app_tag docs) \<lparr>wr_index = tag_index, wr_docs = kept, wr_added = added\<rparr>
     = app_tag (kept @ added)"
  "write_values analyze_ex ''Tag'' (Some ''slug'') [''slug'']
      \<lparr>wr_index = tag_index, wr_docs = docs, wr_added = []\<rparr> [(True, tag)]
     = Inr \<lparr>wr_index = tag_index, wr_docs = docs, wr_added = [[(''slug'', ''fox'')]]\<rparr>"
proof -
  show g: "get_whoosh_schema_and_primary tag = Inr (tag_schema, Some ''slug'')"
    by (simp add: get_whoosh_schema_and_primary_def tag_def Tag_def tag_schema_def)
  have n: "\<forall>d. whoosh_indexes app0 = Some d \<longrightarrow> d (cname (cls tag)) = None"
    by (simp add: app0_def)
  have b: "whoosh_base app0 = ''whoosh_index''" by (simp add: whoosh_base_def app0_def)
  have p: "path_join ''whoosh_index'' ''Tag'' = ''whoosh_index/Tag''"
    by (simp add: path_join_def)
  have f0: "fs app0 ''whoosh_index/Tag'' = None" by (simp add: app0_def)
  have cn: "cname (cls tag) = ''Tag''" by (simp add: example_classes)
  have s: "Searcher_init (Some ''slug'') tag_index = tag_searcher"
    by (auto simp: Searcher_init_def tag_searcher_def tag_index_def tag_schema_def)
  show "whoosh_index app0 tag = Inr (tag_index, app_tag [])"
    unfolding whoosh_index_first [OF n g] cn b p f0
    by (simp add: tag_index_def [symmetric] s QueryProxy_init_def)
       (simp add: app0_def app_tag_def plain_query_def)
  have r: "whoosh_indexes (app_tag docs) = Some [''Tag'' \<mapsto> tag_index]"
    by (simp add: app_tag_def)
  show "whoosh_index (app_tag docs) tag = Inr (tag_index, app_tag docs)"
    by (rule whoosh_index_cached [OF r]) (simp add: cn)
  show "index_writer (app_tag docs) tag_index
     = Inr \<lparr>wr_index = tag_index, wr_docs = docs, wr_added = []\<rparr>"
    by (simp add: index_writer_def app_tag_def tag_index_def)
  show "pure_whoosh (app_tag docs) ''Tag'' = Some tag_searcher"
    by (simp add: app_tag_def)
  show "writer_commit (app_tag docs) \<lparr>wr_index = tag_index, wr_docs = kept, wr_added = added\<rparr>
     = app_tag (kept @ added)"
    by (simp add: writer_commit_def app_tag_def tag_index_def Let_def)
  show "write_values analyze_ex ''Tag'' (Some ''slug'') [''slug'']
      \<lparr>wr_index = tag_index, wr_docs = docs, wr_added = []\<rparr> [(True, tag)]
     = Inr \<lparr>wr_index = tag_index, wr_docs = docs, wr_added = [[(''slug'', ''fox'')]]\<rparr>"
    by (simp add: getattr_def tag_def update_document_def unique_terms_def
          List.map_filter_simps tag_index_def tag_schema_def)
qed

text \<open>
  Claim C8 as stated fails in three ways. Two upserts of one key in one commit leave two
  documents for the key, since the writer replaces committed documents only. From an
  index that holds two documents for a key, each later upsert of the key replaces one of
  them, so two remain. And for a class whose key column is textual and searchable the key
  field of the index is an analyzed-text field, not a unique one, so that two successive
  upserts of one record leave two documents.
\<close>

theorem upsert_twice_counterexample:
  "after_flush insertion_order analyze_ex app0 [(a1, ''insert''), (a1b, ''update'')]
     = Inr (app_docs [doc1, doc1b]) \<and>
   docs_for ''id'' ''1'' [doc1, doc1b] = [doc1, doc1b] \<and>
   after_flush insertion_order analyze_ex (app_docs [doc1, doc1b]) [(a1, ''update'')]
     = Inr (app_docs [doc1b, doc1]) \<and>
   after_flush insertion_order analyze_ex (app_docs [doc1b, doc1]) [(a1b, ''update'')]
     = Inr (app_docs [doc1, doc1b]) \<and>
   docs_for ''id'' ''1'' [doc1b, doc1] = [doc1b, doc1] \<and>
   after_flush insertion_order analyze_ex app0 [(tag, ''insert'')]
     = Inr (app_tag [[(''slug'', ''fox'')]]) \<and>
   after_flush insertion_order analyze_ex (app_tag [[(''slug'', ''fox'')]]) [(tag, ''update'')]
     = Inr (app_tag [[(''slug'', ''fox'')], [(''slug'', ''fox'')]]) \<and>
   docs_for ''slug'' ''fox'' [[(''slug'', ''fox'')], [(''slug'', ''fox'')]]
     = [[(''slug'', ''fox'')], [(''slug'', ''fox'')]]"
proof -
  have 1: "after_flush insertion_order analyze_ex app0 [(a1, ''insert''), (a1b, ''update'')]
     = Inr (app_docs [doc1, doc1b])"
    unfolding after_flush_def insertion_order_def
    by (simp add: example_classes a1b_class whoosh_index_app0 first_writer write_article
          upsert_article commit_docs write_values_Nil del: write_values.simps)
  have 2: "docs_for ''id'' ''1'' [doc1, doc1b] = [doc1, doc1b]"
    "docs_for ''id'' ''1'' [doc1b, doc1] = [doc1b, doc1]"
    by (simp_all add: docs_for_def matches_def doc1_def doc1b_def)
  have 3: "after_flush insertion_order analyze_ex (app_docs [doc1, doc1b]) [(a1, ''update'')]
     = Inr (app_docs [doc1b, doc1])"
    unfolding after_flush_def insertion_order_def
    by (simp add: example_classes a1b_class docs_written article_searcher_def write_article
          upsert_article commit_docs write_values_Nil del: write_values.simps)
  have 4: "after_flush insertion_order analyze_ex (app_docs [doc1b, doc1]) [(a1b, ''update'')]
     = Inr (app_docs [doc1, doc1b])"
    unfolding after_flush_def insertion_order_def
    by (simp add: example_classes a1b_class docs_written article_searcher_def write_article
          upsert_article commit_docs write_values_Nil del: write_values.simps)
  have 5: "after_flush insertion_order analyze_ex app0 [(tag, ''insert'')]
     = Inr (app_tag [[(''slug'', ''fox'')]])"
    unfolding after_flush_def insertion_order_def
    by (simp add: example_classes tag_facts tag_searcher_def write_values_Nil
          del: write_values.simps)
  have 6: "after_flush insertion_order analyze_ex (app_tag [[(''slug'', ''fox'')]])
      [(tag, ''update'')]
     = Inr (app_tag [[(''slug'', ''fox'')], [(''slug'', ''fox'')]])"
    unfolding after_flush_def insertion_order_def
    by (simp add: example_classes tag_facts tag_searcher_def write_values_Nil
          del: write_values.simps)
  have 7: "docs_for ''slug'' ''fox'' [[(''slug'', ''fox'')], [(''slug'', ''fox'')]]
     = [[(''slug'', ''fox'')], [(''slug'', ''fox'')]]"
    by (simp add: docs_for_def matches_def)
  show ?thesis using 1 2 3 4 5 6 7 by simp
qed

theorem upsert_twice_one_document_witness:
  "length (docs_for ''id'' ''1'' []) \<le> 1 \<and>
   (\<exists>app1 app2 st2 d2.
      after_flush insertion_order analyze_ex app0 [(a1, ''insert'')] = Inr app1 \<and>
      after_flush insertion_order analyze_ex app1 [(a1b, ''update'')] = Inr app2 \<and>
      fs app2 ''whoosh_index/Article'' = Some st2 \<and>
      docs_for ''id'' ''1'' (st_docs st2) = [d2] \<and>
      map_of d2 ''id'' = Some ''1'' \<and>
      map_of d2 ''title'' = Some ''green fox'' \<and>
      map_of d2 ''body'' = Some ''jumps'' \<and>
      dom (map_of d2) = {''id'', ''title'', ''body''})"
proof -
  have c: "cls a1b = cls a1" by (simp add: a1b_def a1_def article_def)
  have srch: "searchable (cls a1) = Some [''title'', ''body'']" by (simp add: example_classes)
  have perm: "\<forall>B. mset (insertion_order B) = mset B" by (simp add: insertion_order_def)
  have st: "fs app_first (idx_dir article_index)
              = Some \<lparr>st_schema = article_schema, st_docs = []\<rparr>"
    by (simp add: app_first_def article_index_def)
  have pw: "pure_whoosh app_first (cname (cls a1)) = Some article_searcher"
    by (simp add: app_first_def example_classes)
  have pk: "s_primary_key_name article_searcher = Some ''id''"
    by (simp add: article_searcher_def)
  have idf: "idx_schema article_index ''id'' = Some (ID True True)"
    by (simp add: article_index_def article_schema_def)
  have sub: "set [''title'', ''body''] \<subseteq> dom (idx_schema article_index)"
    by (simp add: article_index_def article_schema_def)
  have t1: "text_of a1 ''id'' = Some ''1''" by (rule a1_texts)
  have tb: "text_of a1b ''id'' = Some ''1''" "text_of a1b ''title'' = Some ''green fox''"
    "text_of a1b ''body'' = Some ''jumps''"
    by (simp_all add: a1b_def article_def text_of_def dec_int_1)
  have p1: "\<forall>key\<in>set [''title'', ''body'']. text_of a1 key \<noteq> None"
    by (simp add: a1_texts)
  have p2: "\<forall>key\<in>set [''title'', ''body'']. text_of a1b key \<noteq> None"
    by (simp add: tb)
  have o1: "''insert'' = ''insert'' \<or> ''insert'' = ''update''" by simp
  have o2: "''update'' = ''insert'' \<or> ''update'' = ''update''" by simp
  have am: "length (docs_for ''id'' ''1''
              (st_docs \<lparr>st_schema = article_schema, st_docs = []\<rparr>)) \<le> 1"
    by (simp add: docs_for_def)
  have dir: "idx_dir article_index = ''whoosh_index/Article''"
    by (simp add: article_index_def)
  obtain app1 app2 st2 d2 where r:
    "after_flush insertion_order analyze_ex app0 [(a1, ''insert'')] = Inr app1"
    "after_flush insertion_order analyze_ex app1 [(a1b, ''update'')] = Inr app2"
    "fs app2 (idx_dir article_index) = Some st2"
    "docs_for ''id'' ''1'' (st_docs st2) = [d2]"
    "map_of d2 = (\<lambda>key. if key = ''id'' \<or> key \<in> set [''title'', ''body'']
                         then text_of a1b key else None)"
    using upsert_twice_one_document [OF c srch perm whoosh_index_app0 st pw pk idf sub
        p1 p2 t1 tb(1) o1 o2 am, of analyze_ex]
    by blast
  have m1: "map_of d2 ''id'' = Some ''1''" unfolding r(5) by (simp add: tb)
  have m2: "map_of d2 ''title'' = Some ''green fox''" unfolding r(5) by (simp add: tb)
  have m3: "map_of d2 ''body'' = Some ''jumps''" unfolding r(5) by (simp add: tb)
  have m4: "dom (map_of d2) = {''id'', ''title'', ''body''}"
    unfolding r(5) by (auto simp: tb dom_def split: if_splits)
  have e: "length (docs_for ''id'' ''1'' []) \<le> 1" by (simp add: docs_for_def)
  show ?thesis
    using e r(1,2) r(3) [unfolded dir] r(4) m1 m2 m3 m4 by blast
qed

end
